theory Spec2Isabelle
  imports Complex_Main "HOL-Library.Word" "HOL-Library.AList"
begin

section \<open>JavaScript strings\<close>

text \<open>
  A JavaScript string is a sequence of UTF-16 code units. The model keeps that
  representation, so that \<open>trim\<close> removes exactly the code units ECMAScript calls
  white space or line terminators, also those outside ASCII.
  \<open>ascii\<close> embeds an ASCII literal.
\<close>

type_synonym code_unit = "16 word"

type_synonym jsstring = "code_unit list"

definition ascii :: "string \<Rightarrow> jsstring" where
  "ascii s = map of_char s"

definition LF :: code_unit where
  "LF = 0x0A"

definition backticks :: jsstring where
  "backticks = [0x60, 0x60, 0x60]"

text \<open>
  \<open>String.prototype.trim\<close> strips WhiteSpace and LineTerminator code points:
  TAB, LF, VT, FF, CR, SP, NBSP, U+1680, U+2000 to U+200A, LS, PS, U+202F, U+205F,
  U+3000 and the byte order mark U+FEFF. All of them are single code units.
\<close>

definition isWhiteSpace :: "code_unit \<Rightarrow> bool" where
  "isWhiteSpace c =
     (c \<in> set [0x09, 0x0A, 0x0B, 0x0C, 0x0D, 0x20, 0xA0, 0x1680, 0x2028, 0x2029,
               0x202F, 0x205F, 0x3000, 0xFEFF]
      \<or> (0x2000 \<le> c \<and> c \<le> 0x200A))"

definition trimEnd :: "jsstring \<Rightarrow> jsstring" where
  "trimEnd s = rev (dropWhile isWhiteSpace (rev s))"

definition trim :: "jsstring \<Rightarrow> jsstring" where
  "trim s = dropWhile isWhiteSpace (trimEnd s)"

text \<open>\<open>s.startsWith(p)\<close>.\<close>

definition startsWith :: "jsstring \<Rightarrow> jsstring \<Rightarrow> bool" where
  "startsWith s p = (take (length p) s = p)"

text \<open>
  \<open>s.indexOf(p)\<close> and \<open>s.lastIndexOf(p)\<close>: the least and the greatest position at
  which \<open>p\<close> occurs in \<open>s\<close>; \<open>None\<close> is the source's \<open>-1\<close>.
\<close>

fun indexOf :: "jsstring \<Rightarrow> jsstring \<Rightarrow> nat option" where
  "indexOf [] p = (if p = [] then Some 0 else None)"
| "indexOf (c # cs) p =
     (if startsWith (c # cs) p then Some 0 else map_option Suc (indexOf cs p))"

fun lastIndexOf :: "jsstring \<Rightarrow> jsstring \<Rightarrow> nat option" where
  "lastIndexOf [] p = (if p = [] then Some 0 else None)"
| "lastIndexOf (c # cs) p =
     (case lastIndexOf cs p of
        Some i \<Rightarrow> Some (Suc i)
      | None \<Rightarrow> if startsWith (c # cs) p then Some 0 else None)"

text \<open>
  \<open>s.slice(i)\<close> and \<open>s.slice(0, j)\<close> for indices inside the string, the only way
  the source calls them (the indices come from \<open>indexOf\<close> and \<open>lastIndexOf\<close>).
\<close>

definition sliceFrom :: "jsstring \<Rightarrow> nat \<Rightarrow> jsstring" where
  "sliceFrom s i = drop i s"

definition sliceTo :: "jsstring \<Rightarrow> nat \<Rightarrow> jsstring" where
  "sliceTo s j = take j s"

section \<open>The fence sanitizer\<close>

text \<open>
  \<open>cleanJsonText\<close> of server.ts: trim; if the text starts with three backticks,
  drop the first line when there is a line feed, then cut at the last three
  backticks when there are any; trim again.
\<close>

definition cleanJsonText :: "jsstring \<Rightarrow> jsstring" where
  "cleanJsonText raw =
     (let text = trim raw in
      if startsWith text backticks then
        (let text1 = (case indexOf text [LF] of
                        Some firstNewline \<Rightarrow> sliceFrom text (firstNewline + 1)
                      | None \<Rightarrow> text);
             text2 = (case lastIndexOf text1 backticks of
                        Some lastTicks \<Rightarrow> sliceTo text1 lastTicks
                      | None \<Rightarrow> text1)
         in trim text2)
      else trim text)"

text \<open>A payload wrapped in a fence: opening marker, tag, line feed, payload, line feed, closing marker.\<close>

definition fenced :: "jsstring \<Rightarrow> jsstring \<Rightarrow> jsstring" where
  "fenced tag payload = backticks @ tag @ [LF] @ payload @ [LF] @ backticks"

section \<open>JavaScript values\<close>

text \<open>
  The values the program handles come from JSON: request bodies, the model's
  envelope, the decoded model text. \<open>JUndefined\<close> is the result of reading a property
  that is not there. An array carries, besides its elements, the named own
  properties assigned to it (none after \<open>JSON.parse\<close>). An object is the list of its
  own properties in creation order; the reordering of integer-like keys is not
  modelled, since nothing here observes key order.

  A number is an IEEE double. The model keeps the exact decimal value of a finite,
  non-zero double (the rounding of the mantissa is not modelled) and is exact about
  what the program can observe of a number: whether it is zero, not-a-number or
  infinite.
\<close>

datatype jsnum = NaN | PosInfinity | NegInfinity | Finite rat

datatype jsval =
    JUndefined
  | JNull
  | JBool bool
  | JNum jsnum
  | JStr jsstring
  | JArr "jsval list" "(jsstring \<times> jsval) list"
  | JObj "(jsstring \<times> jsval) list"

datatype exn = TypeError | SyntaxError | RangeError | PlainError | HostError

text \<open>ToBoolean: the test behind \<open>!x\<close>, \<open>x || y\<close> and \<open>x && y\<close>.\<close>

fun truthy :: "jsval \<Rightarrow> bool" where
  "truthy JUndefined = False"
| "truthy JNull = False"
| "truthy (JBool b) = b"
| "truthy (JNum n) = (case n of NaN \<Rightarrow> False | Finite q \<Rightarrow> q \<noteq> 0 | _ \<Rightarrow> True)"
| "truthy (JStr s) = (s \<noteq> [])"
| "truthy (JArr es ps) = True"
| "truthy (JObj ps) = True"

text \<open>
  \<open>v.k\<close> for a property name \<open>k\<close> that is neither an array index nor \<open>length\<close> nor a
  name the built-in prototypes define (every name the bridge reads this way is such
  a name): a \<open>TypeError\<close> on \<open>undefined\<close> and \<open>null\<close>, the own property of an object
  or array, \<open>undefined\<close> otherwise.
\<close>

fun getProp :: "jsval \<Rightarrow> jsstring \<Rightarrow> exn + jsval" where
  "getProp JUndefined k = Inl TypeError"
| "getProp JNull k = Inl TypeError"
| "getProp (JObj ps) k = Inr (case map_of ps k of Some v \<Rightarrow> v | None \<Rightarrow> JUndefined)"
| "getProp (JArr es ps) k = Inr (case map_of ps k of Some v \<Rightarrow> v | None \<Rightarrow> JUndefined)"
| "getProp v k = Inr JUndefined"

text \<open>
  \<open>v.k = x\<close> in strict-mode code (server.ts is an ES module): creates or overwrites
  the own property of an object or array, and throws a \<open>TypeError\<close> on a primitive.
\<close>

fun setProp :: "jsval \<Rightarrow> jsstring \<Rightarrow> jsval \<Rightarrow> exn + jsval" where
  "setProp (JObj ps) k x = Inr (JObj (AList.update k x ps))"
| "setProp (JArr es ps) k x = Inr (JArr es (AList.update k x ps))"
| "setProp v k x = Inl TypeError"

text \<open>\<open>v?.[0]\<close>: \<open>undefined\<close> on \<open>undefined\<close> and \<open>null\<close>, else the property \<open>0\<close>.\<close>

fun optIndex0 :: "jsval \<Rightarrow> jsval" where
  "optIndex0 (JArr (e # es) ps) = e"
| "optIndex0 (JStr (c # cs)) = JStr [c]"
| "optIndex0 (JObj ps) = (case map_of ps (ascii ''0'') of Some v \<Rightarrow> v | None \<Rightarrow> JUndefined)"
| "optIndex0 v = JUndefined"

definition bindE :: "exn + 'a \<Rightarrow> ('a \<Rightarrow> exn + 'b) \<Rightarrow> exn + 'b" where
  "bindE m f = (case m of Inl e \<Rightarrow> Inl e | Inr x \<Rightarrow> f x)"

text \<open>
  ToString, as \<open>String(v)\<close> and a template literal apply it. The text of a number is
  a parameter. An object with an own property \<open>toString\<close> cannot be converted: a
  value that came from JSON is not callable and \<open>valueOf\<close> returns the object, so the
  conversion throws. An array joins the texts of its elements with commas, \<open>null\<close>
  and \<open>undefined\<close> counting as empty; with an own property \<open>join\<close> it falls back to
  the text of \<open>Object.prototype.toString\<close>.
\<close>

fun joinComma :: "jsstring list \<Rightarrow> jsstring" where
  "joinComma [] = []"
| "joinComma [x] = x"
| "joinComma (x # y # r) = x @ 0x2C # joinComma (y # r)"

fun ToString :: "(jsnum \<Rightarrow> jsstring) \<Rightarrow> jsval \<Rightarrow> exn + jsstring"
  and ToString_elements :: "(jsnum \<Rightarrow> jsstring) \<Rightarrow> jsval list \<Rightarrow> exn + jsstring list" where
  "ToString nf JUndefined = Inr (ascii ''undefined'')"
| "ToString nf JNull = Inr (ascii ''null'')"
| "ToString nf (JBool b) = Inr (if b then ascii ''true'' else ascii ''false'')"
| "ToString nf (JNum n) = Inr (nf n)"
| "ToString nf (JStr s) = Inr s"
| "ToString nf (JObj ps) =
     (if map_of ps (ascii ''toString'') = None then Inr (ascii ''[object Object]'')
      else Inl TypeError)"
| "ToString nf (JArr es ps) =
     (if map_of ps (ascii ''toString'') \<noteq> None then Inl TypeError
      else if map_of ps (ascii ''join'') \<noteq> None then Inr (ascii ''[object Array]'')
      else (case ToString_elements nf es of
              Inl err \<Rightarrow> Inl err
            | Inr ss \<Rightarrow> Inr (joinComma ss)))"
| "ToString_elements nf [] = Inr []"
| "ToString_elements nf (e # es) =
     (case (if e = JUndefined \<or> e = JNull then Inr [] else ToString nf e) of
        Inl err \<Rightarrow> Inl err
      | Inr s0 \<Rightarrow>
          (case ToString_elements nf es of Inl err \<Rightarrow> Inl err | Inr ss \<Rightarrow> Inr (s0 # ss)))"

section \<open>JSON.parse\<close>

text \<open>
  The built-in \<open>JSON.parse\<close>, after the JSON grammar of ECMA-262: a tokenizer, one
  code unit at a time, and a pushdown automaton over the tokens. \<open>None\<close> is the
  \<open>SyntaxError\<close> the built-in throws.
\<close>

definition cu :: "char \<Rightarrow> code_unit" where
  "cu c = of_char c"

definition isJsonWhiteSpace :: "code_unit \<Rightarrow> bool" where
  "isJsonWhiteSpace c = (c = 0x09 \<or> c = 0x0A \<or> c = 0x0D \<or> c = 0x20)"

definition isDigit :: "code_unit \<Rightarrow> bool" where
  "isDigit c = (0x30 \<le> c \<and> c \<le> 0x39)"

definition digitsValue :: "jsstring \<Rightarrow> nat" where
  "digitsValue ds = foldl (\<lambda>a d. 10 * a + (unat d - 48)) 0 ds"

text \<open>
  Rounding a rational to the nearest double, as far as the program can tell: at
  most half the least subnormal gives zero, at least the midpoint above the greatest
  finite double gives an infinity.
\<close>

definition toDouble :: "rat \<Rightarrow> jsnum" where
  "toDouble q =
     (if \<bar>q\<bar> \<le> 1 / 2 ^ 1075 then Finite 0
      else if 2 ^ 1024 - 2 ^ 970 \<le> \<bar>q\<bar> then (if q < 0 then NegInfinity else PosInfinity)
      else Finite q)"

text \<open>
  A number lexeme: \<open>-? (0 | [1-9][0-9]*) (. [0-9]+)? ([eE] [+-]? [0-9]+)?\<close>.
\<close>

definition numberOfLexeme :: "jsstring \<Rightarrow> jsnum option" where
  "numberOfLexeme s =
     (let neg = (s \<noteq> [] \<and> hd s = cu CHR ''-'');
          s1 = (if neg then tl s else s);
          ip = takeWhile isDigit s1;
          s2 = dropWhile isDigit s1;
          hasFrac = (s2 \<noteq> [] \<and> hd s2 = cu CHR ''.'');
          fp = (if hasFrac then takeWhile isDigit (tl s2) else []);
          s3 = (if hasFrac then dropWhile isDigit (tl s2) else s2);
          hasExp = (s3 \<noteq> [] \<and> (hd s3 = cu CHR ''e'' \<or> hd s3 = cu CHR ''E''));
          s4 = (if hasExp then tl s3 else s3);
          eneg = (hasExp \<and> s4 \<noteq> [] \<and> hd s4 = cu CHR ''-'');
          s5 = (if hasExp \<and> s4 \<noteq> [] \<and> (hd s4 = cu CHR ''-'' \<or> hd s4 = cu CHR ''+'')
                then tl s4 else s4);
          ep = (if hasExp then takeWhile isDigit s5 else []);
          s6 = (if hasExp then dropWhile isDigit s5 else s5)
      in if ip = [] \<or> (hd ip = cu CHR ''0'' \<and> length ip > 1) \<or> (hasFrac \<and> fp = [])
            \<or> (hasExp \<and> ep = []) \<or> s6 \<noteq> []
         then None
         else
           (let m = of_nat (digitsValue (ip @ fp)) :: rat;
                e = (if eneg then - int (digitsValue ep) else int (digitsValue ep))
                    - int (length fp);
                q = (if 0 \<le> e then m * 10 ^ nat e else m / 10 ^ nat (- e))
            in Some (toDouble (if neg then - q else q))))"

definition literalOfWord :: "jsstring \<Rightarrow> jsval option" where
  "literalOfWord w =
     (if w = ascii ''true'' then Some (JBool True)
      else if w = ascii ''false'' then Some (JBool False)
      else if w = ascii ''null'' then Some JNull
      else None)"

datatype token =
    TLBrace | TRBrace | TLBracket | TRBracket | TComma | TColon
  | TString jsstring
  | TValue jsval

definition punct :: "code_unit \<Rightarrow> token option" where
  "punct c =
     (if c = cu CHR ''{'' then Some TLBrace
      else if c = cu CHR ''}'' then Some TRBrace
      else if c = cu CHR ''['' then Some TLBracket
      else if c = cu CHR '']'' then Some TRBracket
      else if c = cu CHR '','' then Some TComma
      else if c = cu CHR '':'' then Some TColon
      else None)"

definition isNumberChar :: "code_unit \<Rightarrow> bool" where
  "isNumberChar c =
     (isDigit c \<or> c = cu CHR ''-'' \<or> c = cu CHR ''+'' \<or> c = cu CHR ''.''
      \<or> c = cu CHR ''e'' \<or> c = cu CHR ''E'')"

definition isLower :: "code_unit \<Rightarrow> bool" where
  "isLower c = (0x61 \<le> c \<and> c \<le> 0x7A)"

definition hexValue :: "code_unit \<Rightarrow> code_unit option" where
  "hexValue c =
     (if 0x30 \<le> c \<and> c \<le> 0x39 then Some (c - 0x30)
      else if 0x41 \<le> c \<and> c \<le> 0x46 then Some (c - 0x37)
      else if 0x61 \<le> c \<and> c \<le> 0x66 then Some (c - 0x57)
      else None)"

definition escapeChar :: "code_unit \<Rightarrow> code_unit option" where
  "escapeChar e =
     (if e = 0x22 \<or> e = 0x5C \<or> e = 0x2F then Some e
      else if e = cu CHR ''b'' then Some 0x08
      else if e = cu CHR ''f'' then Some 0x0C
      else if e = cu CHR ''n'' then Some 0x0A
      else if e = cu CHR ''r'' then Some 0x0D
      else if e = cu CHR ''t'' then Some 0x09
      else None)"

text \<open>
  The tokenizer's modes: between tokens; inside a string (the code units read so
  far, latest first); after a backslash; inside a \<open>\u\<close> escape (the hex digits read
  so far); inside a number; inside \<open>true\<close>, \<open>false\<close> or \<open>null\<close>. A number or a word
  ends at white space, at a punctuator or at the end of the text.
\<close>

datatype lexmode =
    LexTop
  | LexString jsstring
  | LexEscape jsstring
  | LexHex jsstring "code_unit list"
  | LexNumber jsstring
  | LexWord jsstring

definition emit :: "token \<Rightarrow> token list option \<Rightarrow> token list option" where
  "emit t r = map_option ((#) t) r"

definition emitEnd :: "token option \<Rightarrow> code_unit \<Rightarrow> token list option \<Rightarrow> token list option" where
  "emitEnd tok c r =
     (case tok of
        None \<Rightarrow> None
      | Some t \<Rightarrow>
          if isJsonWhiteSpace c then emit t r
          else (case punct c of None \<Rightarrow> None | Some p \<Rightarrow> emit t (emit p r)))"

fun tokenize :: "lexmode \<Rightarrow> jsstring \<Rightarrow> token list option" where
  "tokenize LexTop [] = Some []"
| "tokenize (LexNumber acc) [] =
     map_option (\<lambda>n. [TValue (JNum n)]) (numberOfLexeme (rev acc))"
| "tokenize (LexWord acc) [] = map_option (\<lambda>v. [TValue v]) (literalOfWord (rev acc))"
| "tokenize m [] = None"
| "tokenize LexTop (c # cs) =
     (if isJsonWhiteSpace c then tokenize LexTop cs
      else if c = 0x22 then tokenize (LexString []) cs
      else if c = cu CHR ''-'' \<or> isDigit c then tokenize (LexNumber [c]) cs
      else if isLower c then tokenize (LexWord [c]) cs
      else (case punct c of None \<Rightarrow> None | Some p \<Rightarrow> emit p (tokenize LexTop cs)))"
| "tokenize (LexString acc) (c # cs) =
     (if c = 0x22 then emit (TString (rev acc)) (tokenize LexTop cs)
      else if c = 0x5C then tokenize (LexEscape acc) cs
      else if c < 0x20 then None
      else tokenize (LexString (c # acc)) cs)"
| "tokenize (LexEscape acc) (c # cs) =
     (if c = cu CHR ''u'' then tokenize (LexHex acc []) cs
      else (case escapeChar c of
              None \<Rightarrow> None
            | Some x \<Rightarrow> tokenize (LexString (x # acc)) cs))"
| "tokenize (LexHex acc ds) (c # cs) =
     (case hexValue c of
        None \<Rightarrow> None
      | Some h \<Rightarrow>
          if length ds = 3
          then tokenize (LexString (foldl (\<lambda>a d. 16 * a + d) 0 (ds @ [h]) # acc)) cs
          else tokenize (LexHex acc (ds @ [h])) cs)"
| "tokenize (LexNumber acc) (c # cs) =
     (if isNumberChar c then tokenize (LexNumber (c # acc)) cs
      else emitEnd (map_option (\<lambda>n. TValue (JNum n)) (numberOfLexeme (rev acc))) c
             (tokenize LexTop cs))"
| "tokenize (LexWord acc) (c # cs) =
     (if isLower c then tokenize (LexWord (c # acc)) cs
      else emitEnd (map_option TValue (literalOfWord (rev acc))) c (tokenize LexTop cs))"

text \<open>
  The automaton's stack: an array and its elements so far; an object and its
  properties so far; an object waiting for the value of a key. A repeated key
  overwrites the earlier value in place, as \<open>JSON.parse\<close> does.
\<close>

datatype frame =
    ArrFrame "jsval list"
  | ObjFrame "(jsstring \<times> jsval) list"
  | KeyFrame "(jsstring \<times> jsval) list" jsstring

datatype pstate =
    ExpectValue
  | ExpectValueOrClose
  | ExpectKeyOrClose
  | ExpectKey
  | ExpectColon
  | ExpectCommaOrClose
  | Finished jsval

fun deliver :: "jsval \<Rightarrow> frame list \<Rightarrow> (pstate \<times> frame list) option" where
  "deliver v [] = Some (Finished v, [])"
| "deliver v (ArrFrame es # st) = Some (ExpectCommaOrClose, ArrFrame (es @ [v]) # st)"
| "deliver v (KeyFrame ps k # st) =
     Some (ExpectCommaOrClose, ObjFrame (AList.update k v ps) # st)"
| "deliver v (ObjFrame ps # st) = None"

fun startValue :: "frame list \<Rightarrow> token \<Rightarrow> (pstate \<times> frame list) option" where
  "startValue st (TValue v) = deliver v st"
| "startValue st (TString s) = deliver (JStr s) st"
| "startValue st TLBracket = Some (ExpectValueOrClose, ArrFrame [] # st)"
| "startValue st TLBrace = Some (ExpectKeyOrClose, ObjFrame [] # st)"
| "startValue st t = None"

fun pstep :: "pstate \<Rightarrow> frame list \<Rightarrow> token \<Rightarrow> (pstate \<times> frame list) option" where
  "pstep ExpectValue st t = startValue st t"
| "pstep ExpectValueOrClose (ArrFrame es # st) TRBracket = deliver (JArr es []) st"
| "pstep ExpectValueOrClose st t = startValue st t"
| "pstep ExpectKeyOrClose (ObjFrame ps # st) TRBrace = deliver (JObj ps) st"
| "pstep ExpectKeyOrClose (ObjFrame ps # st) (TString k) = Some (ExpectColon, KeyFrame ps k # st)"
| "pstep ExpectKey (ObjFrame ps # st) (TString k) = Some (ExpectColon, KeyFrame ps k # st)"
| "pstep ExpectColon st TColon = Some (ExpectValue, st)"
| "pstep ExpectCommaOrClose (ArrFrame es # st) TComma = Some (ExpectValue, ArrFrame es # st)"
| "pstep ExpectCommaOrClose (ObjFrame ps # st) TComma = Some (ExpectKey, ObjFrame ps # st)"
| "pstep ExpectCommaOrClose (ArrFrame es # st) TRBracket = deliver (JArr es []) st"
| "pstep ExpectCommaOrClose (ObjFrame ps # st) TRBrace = deliver (JObj ps) st"
| "pstep s st t = None"

fun parseTokens :: "pstate \<Rightarrow> frame list \<Rightarrow> token list \<Rightarrow> jsval option" where
  "parseTokens s st [] = (case s of Finished v \<Rightarrow> Some v | _ \<Rightarrow> None)"
| "parseTokens s st (t # ts) =
     (case pstep s st t of
        None \<Rightarrow> None
      | Some (s', st') \<Rightarrow> parseTokens s' st' ts)"

definition JSON_parse :: "jsstring \<Rightarrow> jsval option" where
  "JSON_parse s =
     (case tokenize LexTop s of
        None \<Rightarrow> None
      | Some ts \<Rightarrow> parseTokens ExpectValue [] ts)"

section \<open>The task bridge (server.ts, first program)\<close>

text \<open>
  What the program reaches outside itself is a parameter: the environment variable
  holding the provider credential, the remote model call \<open>openai.responses.create\<close>
  (it rejects or resolves with an envelope; its argument here is the list of texts
  the user prompt interpolates, the rest of the two prompts being constant text),
  the text of a number, \<open>Date.parse\<close> (the time value of a date string, or
  not-a-number; the formats it accepts beyond ISO are left to the implementation),
  the ISO text of a valid time value, and \<open>fetch\<close> to the downstream core (it
  rejects, or resolves with a status).
\<close>

record fetch_response =
  ok :: bool
  status :: nat

record runtime =
  OPENAI_API_KEY :: "jsstring option"
  responses_create :: "jsstring list \<Rightarrow> exn + jsval"
  Number_toString :: "jsnum \<Rightarrow> jsstring"
  Date_parse :: "jsstring \<Rightarrow> jsnum"
  ISO_text :: "jsnum \<Rightarrow> jsstring"
  fetch :: "jsval \<Rightarrow> exn + fetch_response"

text \<open>
  \<open>new Date(v)\<close> for one argument that is not a date: the time value is the number
  of a number, \<open>null\<close> or boolean, not-a-number for \<open>undefined\<close>, and what
  \<open>Date.parse\<close> makes of a string, or of the text of an object or array.
\<close>

definition timeValue :: "runtime \<Rightarrow> jsval \<Rightarrow> exn + jsnum" where
  "timeValue rt v =
     (case v of
        JUndefined \<Rightarrow> Inr NaN
      | JNull \<Rightarrow> Inr (Finite 0)
      | JBool b \<Rightarrow> Inr (Finite (if b then 1 else 0))
      | JNum n \<Rightarrow> Inr n
      | JStr s \<Rightarrow> Inr (Date_parse rt s)
      | _ \<Rightarrow> bindE (ToString (Number_toString rt) v) (\<lambda>s. Inr (Date_parse rt s)))"

text \<open>
  A time value is valid when it is finite and at most 8.64e15 milliseconds in
  magnitude. The doubles of that size are the integers and 8640000000000000 is
  even, so a decimal value rounds to a valid double exactly when its magnitude is at
  most 8640000000000000 and a half.
\<close>

definition validTime :: "jsnum \<Rightarrow> bool" where
  "validTime n = (case n of Finite q \<Rightarrow> \<bar>q\<bar> \<le> 8640000000000000 + 1 / 2 | _ \<Rightarrow> False)"

text \<open>\<open>new Date(v).toISOString()\<close>: a \<open>RangeError\<close> when the time value is not valid.\<close>

definition Date_toISOString :: "runtime \<Rightarrow> jsval \<Rightarrow> exn + jsstring" where
  "Date_toISOString rt v =
     bindE (timeValue rt v) (\<lambda>tv.
       if validTime tv then Inr (ISO_text rt tv) else Inl RangeError)"

text \<open>What a run does to the outside: console output by level, and the remote calls.\<close>

datatype effect =
    ConsoleLog
  | ConsoleWarn
  | ConsoleError
  | OpenAICall "jsstring list"
  | FetchCall jsval

text \<open>
  \<open>const openai = openaiApiKey ? new OpenAI(...) : null\<close>: the client exists when
  the variable is set and not empty.
\<close>

definition openai :: "runtime \<Rightarrow> bool" where
  "openai rt = (case OPENAI_API_KEY rt of None \<Rightarrow> False | Some k \<Rightarrow> k \<noteq> [])"

definition isString :: "jsval \<Rightarrow> bool" where
  "isString v = (case v of JStr s \<Rightarrow> True | _ \<Rightarrow> False)"

text \<open>
  \<open>extractTextFromResponse\<close>: the \<open>try\<close> block as a computation that may throw, and
  the function, whose \<open>catch\<close> logs and returns \<open>null\<close> (here \<open>None\<close>).
\<close>

definition extractTextFromResponse_try :: "jsval \<Rightarrow> exn + jsstring option" where
  "extractTextFromResponse_try completion =
     bindE (getProp completion (ascii ''output'')) (\<lambda>output.
       let firstOutput = optIndex0 output in
       if \<not> truthy firstOutput then Inr None
       else
         bindE (getProp firstOutput (ascii ''content'')) (\<lambda>content.
           let firstContent = optIndex0 content in
           if \<not> truthy firstContent then Inr None
           else
             bindE (getProp firstContent (ascii ''text'')) (\<lambda>text.
               case text of
                 JStr s \<Rightarrow> Inr (Some s)
               | _ \<Rightarrow>
                   bindE (getProp firstContent (ascii ''type'')) (\<lambda>type.
                     if type = JStr (ascii ''output_text'') \<and> truthy text
                     then bindE (getProp text (ascii ''value'')) (\<lambda>v.
                            case v of JStr s \<Rightarrow> Inr (Some s) | _ \<Rightarrow> Inr None)
                     else Inr None))))"

definition extractTextFromResponse :: "jsval \<Rightarrow> jsstring option \<times> effect list" where
  "extractTextFromResponse completion =
     (case extractTextFromResponse_try completion of
        Inl err \<Rightarrow> (None, [ConsoleError])
      | Inr r \<Rightarrow> (r, []))"

text \<open>
  The texts the user prompt interpolates, in the order the template literal
  evaluates and converts them: \<open>task.rawText\<close>, \<open>task.id\<close>, \<open>task.author\<close> and the ISO
  form of \<open>task.createdAt\<close>.
\<close>

definition userPrompt :: "runtime \<Rightarrow> jsval \<Rightarrow> exn + jsstring list" where
  "userPrompt rt task =
     bindE (getProp task (ascii ''rawText'')) (\<lambda>rawText.
     bindE (ToString (Number_toString rt) rawText) (\<lambda>rawText_str.
     bindE (getProp task (ascii ''id'')) (\<lambda>tid.
     bindE (ToString (Number_toString rt) tid) (\<lambda>tid_str.
     bindE (getProp task (ascii ''author'')) (\<lambda>author.
     bindE (ToString (Number_toString rt) author) (\<lambda>author_str.
     bindE (getProp task (ascii ''createdAt'')) (\<lambda>createdAt.
     bindE (Date_toISOString rt createdAt) (\<lambda>stamp.
       Inr [rawText_str, tid_str, author_str, stamp]))))))))"

text \<open>
  The \<open>try\<close> block of \<open>interpretTaskWithLio\<close>: parse, read \<open>originalTaskId\<close>, set it
  to \<open>task.id\<close> when it is falsy. \<open>JSON.parse(cleaned) as StructuredHueterTask\<close> is a
  type assertion: it checks nothing at run time.
\<close>

definition decode_try :: "jsval \<Rightarrow> jsstring \<Rightarrow> exn + jsval" where
  "decode_try task cleaned =
     (case JSON_parse cleaned of
        None \<Rightarrow> Inl SyntaxError
      | Some parsed \<Rightarrow>
          bindE (getProp parsed (ascii ''originalTaskId'')) (\<lambda>oid.
            if \<not> truthy oid
            then bindE (getProp task (ascii ''id'')) (\<lambda>tid.
                   setProp parsed (ascii ''originalTaskId'') tid)
            else Inr parsed))"

text \<open>
  \<open>interpretTaskWithLio\<close>: the result is \<open>Inl\<close> when the promise rejects, \<open>Inr JNull\<close>
  for \<open>null\<close>, else \<open>Inr\<close> of the decoded value.
\<close>

definition interpretTaskWithLio :: "runtime \<Rightarrow> jsval \<Rightarrow> (exn + jsval) \<times> effect list" where
  "interpretTaskWithLio rt task =
     (if \<not> openai rt then (Inr JNull, [ConsoleWarn])
      else
        (case userPrompt rt task of
           Inl err \<Rightarrow> (Inl err, [])
         | Inr args \<Rightarrow>
             (case responses_create rt args of
                Inl err \<Rightarrow> (Inl err, [OpenAICall args])
              | Inr completion \<Rightarrow>
                  (case extractTextFromResponse completion of
                     (None, logs) \<Rightarrow> (Inr JNull, OpenAICall args # logs @ [ConsoleError])
                   | (Some [], logs) \<Rightarrow> (Inr JNull, OpenAICall args # logs @ [ConsoleError])
                   | (Some (c # cs), logs) \<Rightarrow>
                       (let cleaned = cleanJsonText (c # cs) in
                        case decode_try task cleaned of
                          Inl err \<Rightarrow>
                            (Inr JNull, OpenAICall args # logs @ [ConsoleError, ConsoleError])
                        | Inr parsed \<Rightarrow> (Inr parsed, OpenAICall args # logs))))))"

text \<open>
  \<open>forwardStructuredTaskToHueter\<close>: one \<open>fetch\<close>; a status that is not ok, and a
  rejected \<open>fetch\<close>, are logged.
\<close>

definition forward_try :: "runtime \<Rightarrow> jsval \<Rightarrow> exn + effect list" where
  "forward_try rt structured =
     bindE (fetch rt structured) (\<lambda>res.
       if \<not> ok res then Inr [ConsoleError] else Inr [ConsoleLog])"

definition forwardStructuredTaskToHueter :: "runtime \<Rightarrow> jsval \<Rightarrow> (exn + unit) \<times> effect list" where
  "forwardStructuredTaskToHueter rt structured =
     (case forward_try rt structured of
        Inl err \<Rightarrow> (Inr (), [FetchCall structured, ConsoleError])
      | Inr logs \<Rightarrow> (Inr (), FetchCall structured # logs))"

text \<open>An HTTP response: the status and the value handed to \<open>res.json\<close>.\<close>

datatype response = Response nat jsval

fun statusOf :: "response \<Rightarrow> nat" where
  "statusOf (Response st b) = st"

definition ack :: "jsval \<Rightarrow> jsval" where
  "ack structured =
     JObj [(ascii ''ok'', JBool True), (ascii ''received'', JBool True),
           (ascii ''structuredTask'', structured)]"

text \<open>
  \<open>POST /tasks/from-mfc\<close>. The argument is \<open>req.body\<close>;
  \<open>const { task } = req.body || {}\<close> reads the property \<open>task\<close> of a truthy value and
  so never throws. The handler calls the forwarder and does not wait for it: the
  response does not use its result.
\<close>

definition requestTask :: "jsval \<Rightarrow> jsval" where
  "requestTask reqBody =
     (let b = (if truthy reqBody then reqBody else JObj [])
      in case getProp b (ascii ''task'') of Inl err \<Rightarrow> JUndefined | Inr t \<Rightarrow> t)"

definition post_tasks_from_mfc :: "runtime \<Rightarrow> jsval \<Rightarrow> response \<times> effect list" where
  "post_tasks_from_mfc rt reqBody =
     (let task = requestTask reqBody
      in if \<not> truthy task
         then (Response 400 (JObj [(ascii ''error'', JStr (ascii ''Feld 'task' fehlt im Body.''))]), [])
         else
           (case interpretTaskWithLio rt task of
              (r, effs) \<Rightarrow>
                (let received = replicate 7 ConsoleLog;
                     structured = (case r of Inl err \<Rightarrow> JNull | Inr s \<Rightarrow> s);
                     caught = (case r of Inl err \<Rightarrow> [ConsoleError] | Inr s \<Rightarrow> [])
                 in if \<not> truthy structured
                    then (Response 200 (ack JNull), received @ effs @ caught @ [ConsoleWarn])
                    else
                      (case forwardStructuredTaskToHueter rt structured of
                         (f, feffs) \<Rightarrow>
                           (Response 200 (ack structured),
                            received @ effs @ caught @ replicate 3 ConsoleLog @ feffs
                            @ (case f of Inl err \<Rightarrow> [ConsoleError] | Inr u \<Rightarrow> []))))))"

text \<open>The \<open>StructuredHueterTask\<close> interface as a predicate on values.\<close>

definition field :: "(jsstring \<times> jsval) list \<Rightarrow> string \<Rightarrow> jsval" where
  "field ps k = (case map_of ps (ascii k) of Some v \<Rightarrow> v | None \<Rightarrow> JUndefined)"

definition isStringArray :: "jsval \<Rightarrow> bool" where
  "isStringArray v = (case v of JArr es ps \<Rightarrow> list_all isString es | _ \<Rightarrow> False)"

definition priorities :: "jsval list" where
  "priorities = map (\<lambda>s. JStr (ascii s)) [''LOW'', ''MEDIUM'', ''HIGH'', ''CRITICAL'']"

definition recommendedNextSteps :: "jsval list" where
  "recommendedNextSteps =
     map (\<lambda>s. JStr (ascii s))
       [''SEND_TO_HUETER'', ''ASK_HUMAN_FOR_INFO'', ''NEEDS_DESIGN_DECISION'',
        ''JUST_INFORMATION'', ''UNKNOWN'']"

text \<open>Every field but \<open>originalTaskId\<close>.\<close>

definition otherFieldsOk :: "(jsstring \<times> jsval) list \<Rightarrow> bool" where
  "otherFieldsOk ps =
     (isString (field ps ''goal'')
      \<and> isString (field ps ''contextSummary'')
      \<and> isStringArray (field ps ''knowledgeRequirements'')
      \<and> isStringArray (field ps ''subtasks'')
      \<and> isStringArray (field ps ''constraints'')
      \<and> isStringArray (field ps ''successCriteria'')
      \<and> field ps ''priority'' \<in> set priorities
      \<and> field ps ''recommendedNextStep'' \<in> set recommendedNextSteps
      \<and> isString (field ps ''notesForHueter'')
      \<and> (field ps ''notesForHuman'' = JUndefined \<or> isString (field ps ''notesForHuman'')))"

definition isStructuredHueterTask :: "jsval \<Rightarrow> bool" where
  "isStructuredHueterTask v =
     (case v of
        JObj ps \<Rightarrow> isString (field ps ''originalTaskId'') \<and> otherFieldsOk ps
      | _ \<Rightarrow> False)"

text \<open>The \<open>IncomingTask\<close> interface.\<close>

definition isNumber :: "jsval \<Rightarrow> bool" where
  "isNumber v = (case v of JNum n \<Rightarrow> True | _ \<Rightarrow> False)"

definition isIncomingTask :: "jsval \<Rightarrow> bool" where
  "isIncomingTask v =
     (case v of
        JObj ps \<Rightarrow>
          isString (field ps ''id'') \<and> isString (field ps ''state'')
          \<and> isNumber (field ps ''createdAt'') \<and> isNumber (field ps ''updatedAt'')
          \<and> isString (field ps ''author'') \<and> isString (field ps ''rawText'')
      | _ \<Rightarrow> False)"

text \<open>\<open>typeof v === "object"\<close> and not \<open>null\<close>: the values a property can be set on.\<close>

definition isObject :: "jsval \<Rightarrow> bool" where
  "isObject v = (case v of JObj ps \<Rightarrow> True | JArr es ps \<Rightarrow> True | _ \<Rightarrow> False)"

section \<open>Workflows and runs (server.ts, second program)\<close>

datatype StepState = Pending | Running | Done | Failed

record RunStep =
  step_id :: jsstring
  state :: StepState

record Run =
  runId :: jsstring
  workflowId :: jsstring
  run_status :: StepState
  startedAt :: jsstring
  finishedAt :: "jsstring option"
  steps :: "RunStep list"

record WorkflowDef =
  wf_id :: jsstring
  wf_label :: jsstring
  wf_description :: jsstring

text \<open>The code unit of the letter u with diaeresis (U+00FC) in the labels.\<close>

definition uuml :: code_unit where
  "uuml = 0xFC"

definition fallbackWorkflows :: "WorkflowDef list" where
  "fallbackWorkflows =
     [\<lparr>wf_id = ascii ''dev-start'',
       wf_label = ascii ''Dev-Start (MFC)'',
       wf_description =
         ascii ''Startet die Dev-Umgebung f'' @ [uuml] @ ascii ''r Meventa Flight Control.''\<rparr>,
      \<lparr>wf_id = ascii ''hueter-dev-session'',
       wf_label = ascii ''H'' @ [uuml] @ ascii ''ter-Dev-Session'',
       wf_description =
         ascii ''Gef'' @ [uuml] @ ascii ''hrte Session, um an H'' @ [uuml]
         @ ascii ''ter / Meventa zu entwickeln (Planung + 1 Fokus-Aufgabe).''\<rparr>]"

text \<open>
  \<open>httpRequestToMfc\<close>: how the request to the MFC ends. The base URL does not parse,
  the request emits an error, or the response ends with a body. An empty body
  resolves with \<open>null\<close>, a body that is not JSON rejects.
\<close>

datatype mfc_reply = InvalidUrl | RequestError | ResponseBody jsstring

definition httpRequestToMfc :: "mfc_reply \<Rightarrow> exn + jsval" where
  "httpRequestToMfc r =
     (case r of
        InvalidUrl \<Rightarrow> Inl TypeError
      | RequestError \<Rightarrow> Inl HostError
      | ResponseBody raw \<Rightarrow>
          if raw = [] then Inr JNull
          else (case JSON_parse raw of None \<Rightarrow> Inl PlainError | Some parsed \<Rightarrow> Inr parsed))"

text \<open>The callback of \<open>mfcData.workflows.map\<close>, one entry.\<close>

definition mapWorkflow :: "(jsnum \<Rightarrow> jsstring) \<Rightarrow> jsval \<Rightarrow> exn + WorkflowDef" where
  "mapWorkflow nf w =
     bindE (getProp w (ascii ''id'')) (\<lambda>i.
     bindE (ToString nf i) (\<lambda>i_str.
     bindE (getProp w (ascii ''label'')) (\<lambda>l.
     bindE (ToString nf (if truthy l then l else i)) (\<lambda>l_str.
     bindE (getProp w (ascii ''description'')) (\<lambda>d.
     bindE (ToString nf (if truthy d then d else JStr [])) (\<lambda>d_str.
       Inr \<lparr>wf_id = i_str, wf_label = l_str, wf_description = d_str\<rparr>))))))"

fun mapAll :: "('a \<Rightarrow> exn + 'b) \<Rightarrow> 'a list \<Rightarrow> exn + 'b list" where
  "mapAll f [] = Inr []"
| "mapAll f (x # xs) =
     (case f x of
        Inl err \<Rightarrow> Inl err
      | Inr y \<Rightarrow> (case mapAll f xs of Inl err \<Rightarrow> Inl err | Inr ys \<Rightarrow> Inr (y # ys)))"

text \<open>The responses of the second program.\<close>

datatype reply_body =
    WorkflowList "WorkflowDef list"
  | RunBody Run
  | RunList "Run list"
  | RunNotFound jsstring jsstring
  | InheritedValue jsstring

datatype reply = Reply nat reply_body

text \<open>\<open>GET /workflows\<close>: the \<open>try\<close> block, and the handler with its \<open>catch\<close>.\<close>

definition get_workflows_try :: "(jsnum \<Rightarrow> jsstring) \<Rightarrow> mfc_reply \<Rightarrow> exn + WorkflowDef list" where
  "get_workflows_try nf r =
     bindE (httpRequestToMfc r) (\<lambda>mfcData.
       if \<not> truthy mfcData then Inl PlainError
       else
         bindE (getProp mfcData (ascii ''workflows'')) (\<lambda>ws.
           case ws of
             JArr es ps \<Rightarrow> mapAll (mapWorkflow nf) es
           | _ \<Rightarrow> Inl PlainError))"

definition get_workflows :: "(jsnum \<Rightarrow> jsstring) \<Rightarrow> mfc_reply \<Rightarrow> reply" where
  "get_workflows nf r =
     (case get_workflows_try nf r of
        Inl err \<Rightarrow> Reply 200 (WorkflowList fallbackWorkflows)
      | Inr mapped \<Rightarrow> Reply 200 (WorkflowList mapped))"

text \<open>
  The registry \<open>runs\<close> is an object literal used as a dictionary: its own properties
  in creation order. Reading \<open>runs[k]\<close> for a key that is not an own property goes on
  to \<open>Object.prototype\<close>, which defines the names below.
\<close>

type_synonym registry = "(jsstring \<times> Run) list"

definition Object_prototype_names :: "jsstring list" where
  "Object_prototype_names =
     map ascii
       [''constructor'', ''__defineGetter__'', ''__defineSetter__'', ''hasOwnProperty'',
        ''__lookupGetter__'', ''__lookupSetter__'', ''isPrototypeOf'',
        ''propertyIsEnumerable'', ''toString'', ''valueOf'', ''__proto__'',
        ''toLocaleString'']"

datatype 'a property = Own 'a | Inherited | Absent

definition registry_get :: "registry \<Rightarrow> jsstring \<Rightarrow> Run property" where
  "registry_get runs k =
     (case map_of runs k of
        Some run \<Rightarrow> Own run
      | None \<Rightarrow> if k \<in> set Object_prototype_names then Inherited else Absent)"

text \<open>\<open>now.replace(/[:.]/g, "-")\<close>.\<close>

definition replaceColonDot :: "jsstring \<Rightarrow> jsstring" where
  "replaceColonDot s = map (\<lambda>c. if c = cu CHR '':'' \<or> c = cu CHR ''.'' then cu CHR ''-'' else c) s"

text \<open>
  \<open>POST /workflows/:id/start\<close>. \<open>now\<close> is \<open>new Date().toISOString()\<close>. The key begins
  with \<open>run-\<close>, so the assignment \<open>runs[runId] = run\<close> creates or overwrites an own
  property.
\<close>

definition start_workflow :: "jsstring \<Rightarrow> jsstring \<Rightarrow> registry \<Rightarrow> reply \<times> registry" where
  "start_workflow now wid runs =
     (let rid = ascii ''run-'' @ replaceColonDot now @ ascii ''-'' @ wid;
          plan = [\<lparr>step_id = wid @ ascii ''-step-1'', state = Running\<rparr>,
                  \<lparr>step_id = wid @ ascii ''-step-2'', state = Pending\<rparr>];
          run = \<lparr>runId = rid, workflowId = wid, run_status = Running, startedAt = now,
                 finishedAt = None, steps = plan\<rparr>
      in (Reply 202 (RunBody run), AList.update rid run runs))"

text \<open>
  \<open>GET /runs/:runId\<close>. A falsy \<open>runs[runId]\<close> gives 404; every inherited value is a
  function or an object, hence truthy, and goes to \<open>res.json\<close> with status 200.
\<close>

definition get_run :: "registry \<Rightarrow> jsstring \<Rightarrow> reply" where
  "get_run runs rid =
     (case registry_get runs rid of
        Own run \<Rightarrow> Reply 200 (RunBody run)
      | Inherited \<Rightarrow> Reply 200 (InheritedValue rid)
      | Absent \<Rightarrow> Reply 404 (RunNotFound (ascii ''Run not found'') rid))"

text \<open>\<open>GET /runs\<close>.\<close>

definition get_runs :: "registry \<Rightarrow> reply" where
  "get_runs runs = Reply 200 (RunList (map snd runs))"

section \<open>Sample inputs\<close>

text \<open>
  A provider envelope carrying a given text, a configured runtime whose provider
  answers with that envelope, an incoming task, and a provider text that holds every
  field of a structured task but \<open>originalTaskId\<close>.
\<close>

definition example_envelope :: "jsstring \<Rightarrow> jsval" where
  "example_envelope t =
     JObj [(ascii ''output'',
            JArr [JObj [(ascii ''content'',
                         JArr [JObj [(ascii ''type'', JStr (ascii ''output_text'')),
                                     (ascii ''text'', JStr t)]] [])]] [])]"

definition example_runtime :: "jsstring \<Rightarrow> runtime" where
  "example_runtime t =
     \<lparr>OPENAI_API_KEY = Some (ascii ''sk-test''),
      responses_create = (\<lambda>args. Inr (example_envelope t)),
      Number_toString = (\<lambda>n. ascii ''0''),
      Date_parse = (\<lambda>d. NaN),
      ISO_text = (\<lambda>n. ascii ''1970-01-01T00:00:00.000Z''),
      fetch = (\<lambda>b. Inr \<lparr>ok = True, status = 200\<rparr>)\<rparr>"

definition example_task_fields :: "(jsstring \<times> jsval) list" where
  "example_task_fields =
     [(ascii ''id'', JStr (ascii ''t1'')), (ascii ''state'', JStr (ascii ''open'')),
      (ascii ''createdAt'', JNum (Finite 0)), (ascii ''updatedAt'', JNum (Finite 0)),
      (ascii ''author'', JStr (ascii ''marcel'')), (ascii ''rawText'', JStr (ascii ''bitte''))]"

text \<open>The same task with a \<open>createdAt\<close> of 1e16, beyond the range of dates.\<close>

definition late_task_fields :: "(jsstring \<times> jsval) list" where
  "late_task_fields =
     [(ascii ''id'', JStr (ascii ''t1'')), (ascii ''state'', JStr (ascii ''open'')),
      (ascii ''createdAt'', JNum (Finite 10000000000000000)),
      (ascii ''updatedAt'', JNum (Finite 0)),
      (ascii ''author'', JStr (ascii ''marcel'')), (ascii ''rawText'', JStr (ascii ''bitte''))]"

definition example_fields :: "(jsstring \<times> jsval) list" where
  "example_fields =
     [(ascii ''goal'', JStr (ascii ''g'')),
      (ascii ''contextSummary'', JStr (ascii ''c'')),
      (ascii ''knowledgeRequirements'', JArr [] []),
      (ascii ''subtasks'', JArr [JStr (ascii ''s'')] []),
      (ascii ''constraints'', JArr [] []),
      (ascii ''successCriteria'', JArr [] []),
      (ascii ''priority'', JStr (ascii ''HIGH'')),
      (ascii ''recommendedNextStep'', JStr (ascii ''SEND_TO_HUETER'')),
      (ascii ''notesForHueter'', JStr (ascii ''n''))]"

definition example_text :: jsstring where
  "example_text = ascii ''{\"goal\":\"g\",\"contextSummary\":\"c\",\"knowledgeRequirements\":[],\"subtasks\":[\"s\"],\"constraints\":[],\"successCriteria\":[],\"priority\":\"HIGH\",\"recommendedNextStep\":\"SEND_TO_HUETER\",\"notesForHueter\":\"n\"}''"

section \<open>Strings: trimming and searching\<close>

lemma not_ws_tick: "\<not> isWhiteSpace 0x60"
  by (simp add: isWhiteSpace_def)

lemma trim_snoc_ws: "isWhiteSpace c \<Longrightarrow> trim (s @ [c]) = trim s"
  by (simp add: trim_def trimEnd_def)

lemma trimEnd_id: "s \<noteq> [] \<Longrightarrow> \<not> isWhiteSpace (last s) \<Longrightarrow> trimEnd s = s"
  by (cases s rule: rev_cases) (simp_all add: trimEnd_def)

lemma trim_id:
  "s \<noteq> [] \<Longrightarrow> \<not> isWhiteSpace (hd s) \<Longrightarrow> \<not> isWhiteSpace (last s) \<Longrightarrow> trim s = s"
  by (cases s) (simp_all add: trim_def trimEnd_id)

lemma dropWhile_same_length:
  assumes "length (dropWhile P xs) = length xs"
  shows "dropWhile P xs = xs"
proof (cases xs)
  case Nil
  then show ?thesis by simp
next
  case (Cons x r)
  show ?thesis
  proof (cases "P x")
    case True
    with Cons assms length_dropWhile_le [of P r] show ?thesis by simp
  next
    case False
    with Cons show ?thesis by simp
  qed
qed

text \<open>Trimming changes nothing exactly when there is no white space at either end.\<close>

lemma trim_fixed:
  "trim s = s \<longleftrightarrow> s = [] \<or> (\<not> isWhiteSpace (hd s) \<and> \<not> isWhiteSpace (last s))"
proof (cases "s = []")
  case True
  then show ?thesis by (simp add: trim_def trimEnd_def)
next
  case False
  show ?thesis
  proof
    assume t: "trim s = s"
    have l1: "length (trimEnd s) \<le> length s"
      using length_dropWhile_le [of isWhiteSpace "rev s"] by (simp add: trimEnd_def)
    have l2: "length (trim s) \<le> length (trimEnd s)"
      using length_dropWhile_le [of isWhiteSpace "trimEnd s"] by (simp add: trim_def)
    from t l1 l2 have "length (trimEnd s) = length s" by simp
    then have "length (dropWhile isWhiteSpace (rev s)) = length (rev s)"
      by (simp add: trimEnd_def)
    then have e: "dropWhile isWhiteSpace (rev s) = rev s" by (rule dropWhile_same_length)
    from False have "rev s \<noteq> []" by simp
    with e have "\<not> isWhiteSpace (hd (rev s))" by (metis hd_dropWhile)
    then have la: "\<not> isWhiteSpace (last s)" using False by (simp add: hd_rev)
    from e have "trimEnd s = s" by (simp add: trimEnd_def)
    with t have "dropWhile isWhiteSpace s = s" by (simp add: trim_def)
    with False have "\<not> isWhiteSpace (hd s)" by (metis hd_dropWhile)
    with la show "s = [] \<or> (\<not> isWhiteSpace (hd s) \<and> \<not> isWhiteSpace (last s))" by simp
  next
    assume "s = [] \<or> (\<not> isWhiteSpace (hd s) \<and> \<not> isWhiteSpace (last s))"
    with False show "trim s = s" by (simp add: trim_id)
  qed
qed

lemma indexOf_char: "c \<notin> set u \<Longrightarrow> indexOf (u @ c # v) [c] = Some (length u)"
  by (induction u) (auto simp: startsWith_def)

lemma indexOf_char_None: "c \<notin> set s \<Longrightarrow> indexOf s [c] = None"
  by (induction s) (auto simp: startsWith_def)

lemma lastIndexOf_short: "length s < length p \<Longrightarrow> lastIndexOf s p = None"
  by (induction s) (auto simp: startsWith_def)

lemma lastIndexOf_self: "lastIndexOf p p = Some 0"
  by (cases p) (auto simp: startsWith_def lastIndexOf_short split: option.splits)

lemma lastIndexOf_suffix: "lastIndexOf (u @ p) p = Some (length u)"
  by (induction u) (auto simp: lastIndexOf_self)

lemma lastIndexOf_Some:
  "lastIndexOf s p = Some k \<Longrightarrow> startsWith (drop k s) p \<and> k \<le> length s"
  by (induction s arbitrary: k) (auto split: option.splits if_splits simp: startsWith_def)

lemma lastIndexOf_None: "lastIndexOf s p = None \<Longrightarrow> \<not> startsWith (drop j s) p"
proof (induction s arbitrary: j)
  case Nil
  then show ?case by (simp add: startsWith_def split: if_splits)
next
  case (Cons c cs)
  then show ?case by (cases j) (auto split: option.splits if_splits)
qed

lemma lastIndexOf_greatest:
  "lastIndexOf s p = Some k \<Longrightarrow> k < j \<Longrightarrow> j \<le> length s \<Longrightarrow> \<not> startsWith (drop j s) p"
proof (induction s arbitrary: k j)
  case Nil
  then show ?case by (simp add: startsWith_def split: if_splits)
next
  case (Cons c cs)
  from Cons.prems obtain j' where j: "j = Suc j'" by (cases j) auto
  show ?case
  proof (cases "lastIndexOf cs p")
    case None
    then show ?thesis using j by (simp add: lastIndexOf_None)
  next
    case (Some i)
    then show ?thesis using Cons j by auto
  qed
qed

lemma lastIndexOf_startsWith: "startsWith s p \<Longrightarrow> \<exists>k. lastIndexOf s p = Some k"
  using lastIndexOf_None [of s p 0] by (cases "lastIndexOf s p") auto

text \<open>A fenced payload, whose tag holds no line feed, is cleaned to the trimmed payload.\<close>

lemma fenced_clean:
  assumes tag: "LF \<notin> set tag"
  shows "cleanJsonText (fenced tag payload) = trim payload"
proof -
  let ?t = "fenced tag payload"
  have t: "trim ?t = ?t"
    by (rule trim_id) (simp_all add: fenced_def backticks_def not_ws_tick)
  have sw: "startsWith ?t backticks" by (simp add: startsWith_def fenced_def)
  have "LF \<notin> set (backticks @ tag)" using tag by (simp add: backticks_def LF_def)
  then have "indexOf ((backticks @ tag) @ LF # (payload @ [LF] @ backticks)) [LF]
             = Some (length (backticks @ tag))"
    by (rule indexOf_char)
  then have io: "indexOf ?t [LF] = Some (length backticks + length tag)"
    by (simp add: fenced_def)
  have dr: "sliceFrom ?t (length backticks + length tag + 1) = (payload @ [LF]) @ backticks"
    by (simp add: sliceFrom_def fenced_def)
  have li: "lastIndexOf ((payload @ [LF]) @ backticks) backticks = Some (length (payload @ [LF]))"
    by (rule lastIndexOf_suffix)
  have ws: "isWhiteSpace LF" by (simp add: isWhiteSpace_def LF_def)
  show ?thesis
    unfolding cleanJsonText_def Let_def t using sw
    by (simp only: if_True io option.case dr li sliceTo_def append_eq_conv_conj [symmetric])
       (simp add: trim_snoc_ws [OF ws])
qed

section \<open>JSON.parse ignores what the sanitizer trims\<close>

text \<open>
  A text that \<open>JSON.parse\<close> accepts is accepted with the same result after
  \<open>cleanJsonText\<close>: white space that is not JSON white space, and a backtick, make
  the parse fail, and JSON white space at the ends is skipped anyway.
\<close>

lemma ws_unat:
  "isWhiteSpace c \<Longrightarrow> \<not> isJsonWhiteSpace c \<Longrightarrow> unat c = 11 \<or> unat c = 12 \<or> 160 \<le> unat c"
  unfolding isWhiteSpace_def isJsonWhiteSpace_def
  by (auto simp: word_le_nat_alt)

lemma jsonws_unat:
  "isJsonWhiteSpace c \<Longrightarrow> unat c = 9 \<or> unat c = 10 \<or> unat c = 13 \<or> unat c = 32"
  unfolding isJsonWhiteSpace_def by auto

lemma token_start_unat:
  "c = 0x22 \<Longrightarrow> unat c = 34"
  "c = 0x5C \<Longrightarrow> unat c = 92"
  "isDigit c \<Longrightarrow> 48 \<le> unat c \<and> unat c \<le> 57"
  "isLower c \<Longrightarrow> 97 \<le> unat c \<and> unat c \<le> 122"
  "punct c = Some p \<Longrightarrow> unat c \<in> {123, 125, 91, 93, 44, 58}"
  "c = cu CHR ''-'' \<Longrightarrow> unat c = 45"
  "c = cu CHR ''u'' \<Longrightarrow> unat c = 117"
  "escapeChar c = Some x \<Longrightarrow> unat c \<in> {34, 92, 47, 98, 102, 110, 114, 116}"
  "hexValue c = Some h \<Longrightarrow> 48 \<le> unat c \<and> unat c \<le> 102"
  by (auto simp: isDigit_def isLower_def punct_def cu_def escapeChar_def hexValue_def
      word_le_nat_alt split: if_splits)

lemma numberChar_unat: "isNumberChar c \<Longrightarrow> 43 \<le> unat c \<and> unat c \<le> 101"
  by (auto simp: isNumberChar_def isDigit_def cu_def word_le_nat_alt)

lemma ws_cases: "isWhiteSpace c \<Longrightarrow> unat c \<in> {9, 10, 11, 12, 13, 32} \<or> 160 \<le> unat c"
  using ws_unat [of c] jsonws_unat [of c] by (cases "isJsonWhiteSpace c") auto

lemma ws_not_token_start:
  assumes "isWhiteSpace c"
  shows "c \<noteq> 0x22" "c \<noteq> 0x5C" "\<not> isDigit c" "\<not> isLower c" "punct c = None"
    "c \<noteq> cu CHR ''-''" "\<not> isNumberChar c" "escapeChar c = None" "hexValue c = None"
    "c \<noteq> cu CHR ''u''"
proof -
  note w = ws_cases [OF assms]
  show "c \<noteq> 0x22" using w token_start_unat(1) [of c] by auto
  show "c \<noteq> 0x5C" using w token_start_unat(2) [of c] by auto
  show "\<not> isDigit c" using w token_start_unat(3) [of c] by auto
  show "\<not> isLower c" using w token_start_unat(4) [of c] by auto
  show "punct c = None" using w token_start_unat(5) [of c] by (cases "punct c") auto
  show "c \<noteq> cu CHR ''-''" using w token_start_unat(6) [of c] by auto
  show "\<not> isNumberChar c" using w numberChar_unat [of c] by auto
  show "escapeChar c = None" using w token_start_unat(8) [of c] by (cases "escapeChar c") auto
  show "hexValue c = None" using w token_start_unat(9) [of c] by (cases "hexValue c") auto
  show "c \<noteq> cu CHR ''u''" using w token_start_unat(7) [of c] by auto
qed

lemma tokenize_lead_ws:
  "isWhiteSpace c \<Longrightarrow> tokenize LexTop (c # cs) = Some ts \<Longrightarrow> tokenize LexTop cs = Some ts"
  by (cases "isJsonWhiteSpace c") (auto simp: ws_not_token_start)

lemma tokenize_dropWhile:
  "tokenize LexTop s = Some ts \<Longrightarrow> tokenize LexTop (dropWhile isWhiteSpace s) = Some ts"
  by (induction s) (auto dest: tokenize_lead_ws simp del: tokenize.simps)

lemma emit_None: "emit t None = None"
  by (simp add: emit_def)

lemma emitEnd_None: "emitEnd tok x None = None"
  by (simp add: emitEnd_def emit_def split: option.splits)

lemma tokenize_trail_base:
  assumes "isWhiteSpace c"
  shows "tokenize m [c] = None \<or> tokenize m [c] = tokenize m []"
  using assms
  by (cases m) (auto simp: ws_not_token_start emitEnd_def emit_def split: option.splits)

text \<open>White space at the end either breaks the tokenizer or changes nothing, in every mode.\<close>

lemma tokenize_trail_ws:
  "isWhiteSpace c \<Longrightarrow> tokenize m (s @ [c]) = None \<or> tokenize m (s @ [c]) = tokenize m s"
proof (induction s arbitrary: m)
  case Nil
  then show ?case using tokenize_trail_base [of c m] by simp
next
  case (Cons x s)
  note IH = Cons.IH [OF Cons.prems]
  show ?case
  proof (cases m)
    case LexTop
    then show ?thesis
      using IH [of LexTop] IH [of "LexString []"] IH [of "LexNumber [x]"] IH [of "LexWord [x]"]
      by (auto simp: emit_None split: option.splits)
  next
    case (LexString acc)
    then show ?thesis
      using IH [of LexTop] IH [of "LexEscape acc"] IH [of "LexString (x # acc)"]
      by (auto simp: emit_None)
  next
    case (LexEscape acc)
    then show ?thesis
      using IH [of "LexHex acc []"] IH [of "LexString (the (escapeChar x) # acc)"]
      by (auto split: option.splits)
  next
    case (LexHex acc ds)
    then show ?thesis
      using IH [of "LexHex acc (ds @ [the (hexValue x)])"]
        IH [of "LexString (foldl (\<lambda>a d. 16 * a + d) 0 (ds @ [the (hexValue x)]) # acc)"]
      by (auto split: option.splits)
  next
    case (LexNumber acc)
    then show ?thesis
      using IH [of LexTop] IH [of "LexNumber (x # acc)"]
      by (auto simp: emitEnd_None)
  next
    case (LexWord acc)
    then show ?thesis
      using IH [of LexTop] IH [of "LexWord (x # acc)"]
      by (auto simp: emitEnd_None)
  qed
qed

lemma tokenize_dropWhile_rev:
  "tokenize LexTop (rev r) = Some ts
   \<Longrightarrow> tokenize LexTop (rev (dropWhile isWhiteSpace r)) = Some ts"
proof (induction r)
  case Nil
  then show ?case by simp
next
  case (Cons c r)
  show ?case
  proof (cases "isWhiteSpace c")
    case True
    with Cons.prems tokenize_trail_ws [of c LexTop "rev r"]
    have "tokenize LexTop (rev r) = Some ts" by auto
    with Cons.IH True show ?thesis by simp
  next
    case False
    with Cons.prems show ?thesis by simp
  qed
qed

lemma tokenize_trim:
  assumes "tokenize LexTop s = Some ts"
  shows "tokenize LexTop (trim s) = Some ts"
proof -
  have "tokenize LexTop (trimEnd s) = Some ts"
    using tokenize_dropWhile_rev [of "rev s" ts] assms by (simp add: trimEnd_def)
  then show ?thesis unfolding trim_def by (rule tokenize_dropWhile)
qed

lemma JSON_parse_trim: "JSON_parse s = Some v \<Longrightarrow> JSON_parse (trim s) = Some v"
  by (auto simp: JSON_parse_def tokenize_trim split: option.splits)

lemma JSON_parse_no_fence: "JSON_parse s = Some v \<Longrightarrow> \<not> startsWith s backticks"
  by (cases s)
    (auto simp: JSON_parse_def startsWith_def backticks_def isJsonWhiteSpace_def isDigit_def
      isLower_def cu_def punct_def split: option.splits)

lemma JSON_parse_clean:
  assumes "JSON_parse s = Some v"
  shows "JSON_parse (cleanJsonText s) = Some v"
proof -
  have t: "JSON_parse (trim s) = Some v" using assms by (rule JSON_parse_trim)
  then have "\<not> startsWith (trim s) backticks" by (rule JSON_parse_no_fence)
  then have "cleanJsonText s = trim (trim s)" by (simp add: cleanJsonText_def)
  then show ?thesis using JSON_parse_trim [OF t] by simp
qed

lemma JSON_parse_empty: "JSON_parse [] = None"
  by (simp add: JSON_parse_def)

lemma cleanJsonText_empty: "cleanJsonText [] = []"
  by (simp add: cleanJsonText_def trim_def trimEnd_def startsWith_def backticks_def)

section \<open>Properties, fields and the decoding step\<close>

lemma getProp_obj: "getProp (JObj ps) (ascii k) = Inr (field ps k)"
  by (simp add: field_def)

lemma field_update:
  "field (AList.update (ascii k) v ps) k' = (if ascii k' = ascii k then v else field ps k')"
  by (simp add: field_def update_conv')

lemma otherFieldsOk_update:
  "otherFieldsOk (AList.update (ascii ''originalTaskId'') v ps) = otherFieldsOk ps"
  unfolding otherFieldsOk_def field_update
  by (simp add: ascii_def)

lemma requestTask_obj: "requestTask (JObj ps) = field ps ''task''"
  by (simp add: requestTask_def field_def)

lemma timeValue_responses_create:
  "timeValue (rt\<lparr>responses_create := f\<rparr>) v = timeValue rt v"
  by (cases v) (simp_all add: timeValue_def)


lemma Date_toISOString_responses_create:
  "Date_toISOString (rt\<lparr>responses_create := f\<rparr>) v = Date_toISOString rt v"
  by (simp add: Date_toISOString_def timeValue_responses_create cong: if_cong)


lemma userPrompt_responses_create:
  "userPrompt (rt\<lparr>responses_create := f\<rparr>) task = userPrompt rt task"
  by (simp add: userPrompt_def Date_toISOString_responses_create)


text \<open>The prompt of an incoming task: built when \<open>createdAt\<close> is a valid time value.\<close>

lemma userPrompt_incoming:
  assumes "field tps ''rawText'' = JStr r" "field tps ''id'' = JStr i"
    "field tps ''author'' = JStr a" "field tps ''createdAt'' = JNum n"
  shows "userPrompt rt (JObj tps) =
           (if validTime n then Inr [r, i, a, ISO_text rt n] else Inl RangeError)"
  using assms
  by (simp add: userPrompt_def bindE_def getProp_obj Date_toISOString_def timeValue_def
      del: getProp.simps)

lemma userPrompt_id:
  "userPrompt rt task = Inr args \<Longrightarrow> \<exists>tid. getProp task (ascii ''id'') = Inr tid"
  by (auto simp: userPrompt_def bindE_def split: sum.splits)

text \<open>What the \<open>try\<close> block returns is an object or an array: a primitive cannot take the property.\<close>

lemma decode_try_shape:
  assumes "decode_try task c = Inr v"
  shows "(\<exists>ps. v = JObj ps) \<or> (\<exists>es ps. v = JArr es ps)"
proof -
  from assms obtain parsed where p: "JSON_parse c = Some parsed"
    by (auto simp: decode_try_def split: option.splits)
  show ?thesis
    using assms p
    by (cases parsed) (auto simp: decode_try_def bindE_def split: if_splits sum.splits)
qed

lemma decode_try_not_json: "JSON_parse c = None \<Longrightarrow> decode_try task c = Inl SyntaxError"
  by (simp add: decode_try_def)

lemma decode_try_primitive:
  assumes "JSON_parse c = Some parsed" and "\<not> isObject parsed"
  shows "\<exists>e. decode_try task c = Inl e"
  using assms
  by (cases parsed; cases "getProp task (ascii ''id'')")
    (simp_all add: decode_try_def bindE_def isObject_def)

lemma decode_try_object:
  assumes "JSON_parse c = Some parsed" and "isObject parsed"
    and "getProp task (ascii ''id'') = Inr tid"
  shows "\<exists>oid v. getProp parsed (ascii ''originalTaskId'') = Inr oid
           \<and> (if truthy oid then v = parsed
               else setProp parsed (ascii ''originalTaskId'') tid = Inr v)
           \<and> decode_try task c = Inr v \<and> isObject v"
  using assms
  by (cases parsed) (auto simp: decode_try_def bindE_def isObject_def)

text \<open>After the provider has answered, the result is \<open>null\<close> or what the \<open>try\<close> block returns.\<close>

lemma interpret_after_call:
  assumes "openai rt" and "userPrompt rt task = Inr args"
    and "responses_create rt args = Inr completion"
  shows "fst (interpretTaskWithLio rt task) =
           (case fst (extractTextFromResponse completion) of
              None \<Rightarrow> Inr JNull
            | Some t \<Rightarrow>
                (case decode_try task (cleanJsonText t) of
                   Inl e \<Rightarrow> Inr JNull
                 | Inr v \<Rightarrow> Inr v))"
proof (cases "extractTextFromResponse completion")
  case (Pair r logs)
  show ?thesis
  proof (cases r)
    case None
    with Pair assms show ?thesis by (simp add: interpretTaskWithLio_def)
  next
    case (Some t)
    show ?thesis
    proof (cases t)
      case Nil
      have "decode_try task (cleanJsonText []) = Inl SyntaxError"
        by (simp add: decode_try_not_json cleanJsonText_empty JSON_parse_empty)
      with Pair Some Nil assms show ?thesis by (simp add: interpretTaskWithLio_def)
    next
      case (Cons c cs)
      with Pair Some assms show ?thesis
        by (simp add: interpretTaskWithLio_def Let_def split: sum.splits)
    qed
  qed
qed

text \<open>A result other than \<open>null\<close> comes from the last branch of \<open>interpretTaskWithLio\<close>.\<close>

lemma interpret_cases:
  assumes "fst (interpretTaskWithLio rt task) = Inr v" and "v \<noteq> JNull"
  shows "\<exists>args completion t.
           openai rt \<and> userPrompt rt task = Inr args \<and> responses_create rt args = Inr completion
           \<and> fst (extractTextFromResponse completion) = Some t \<and> t \<noteq> []
           \<and> decode_try task (cleanJsonText t) = Inr v"
  using assms
  by (auto simp: interpretTaskWithLio_def Let_def
      split: if_splits sum.splits prod.splits option.splits list.splits)

lemma interpret_truthy_or_null:
  assumes "fst (interpretTaskWithLio rt task) = Inr v"
  shows "v = JNull \<or> truthy v"
proof (cases "v = JNull")
  case True
  then show ?thesis by simp
next
  case False
  from interpret_cases [OF assms False] obtain t
    where "decode_try task (cleanJsonText t) = Inr v" by blast
  from decode_try_shape [OF this] show ?thesis by auto
qed

section \<open>Sample inputs, evaluated\<close>

lemma example_parse: "JSON_parse example_text = Some (JObj example_fields)"
  by code_simp

lemma example_otherFieldsOk: "otherFieldsOk example_fields"
  by code_simp

lemma example_isIncomingTask: "isIncomingTask (JObj example_task_fields)"
  by code_simp

lemma example_no_id: "field example_fields ''originalTaskId'' = JUndefined"
  by code_simp

lemma example_extract:
  "extractTextFromResponse (example_envelope t) = (Some t, [])"
  by (simp add: extractTextFromResponse_def extractTextFromResponse_try_def
      example_envelope_def bindE_def ascii_def)

lemma example_openai: "openai (example_runtime t)"
  by (simp add: openai_def example_runtime_def ascii_def)

lemma example_userPrompt:
  "userPrompt (example_runtime t) (JObj example_task_fields) =
     Inr [ascii ''bitte'', ascii ''t1'', ascii ''marcel'', ascii ''1970-01-01T00:00:00.000Z'']"
  by (simp add: userPrompt_def Date_toISOString_def timeValue_def validTime_def
      example_runtime_def example_task_fields_def bindE_def ascii_def)

lemma late_isIncomingTask: "isIncomingTask (JObj late_task_fields)"
  by code_simp

lemma late_throws:
  "interpretTaskWithLio (example_runtime t) (JObj late_task_fields) = (Inl RangeError, [])"
  by (simp add: interpretTaskWithLio_def example_openai userPrompt_def Date_toISOString_def
      timeValue_def validTime_def late_task_fields_def bindE_def ascii_def)

lemma example_empty_object:
  "fst (interpretTaskWithLio (example_runtime (ascii ''{}'')) (JObj example_task_fields))
     = Inr (JObj [(ascii ''originalTaskId'', JStr (ascii ''t1''))])"
  by code_simp

section \<open>The sanitizer on fenced text\<close>

text \<open>
  Claim C3, as the code has it. For every payload and every tag without a line feed,
  \<open>cleanJsonText\<close> of the fenced payload is the payload with the white space at its
  two ends removed. It is the payload itself exactly when the payload is empty or
  has no white space at either end: the final \<open>trim\<close> of the source also applies to
  the payload.
\<close>

theorem fenced_payload_trimmed:
  assumes "LF \<notin> set tag"
  shows "cleanJsonText (fenced tag payload) = trim payload
    \<and> (cleanJsonText (fenced tag payload) = payload
        \<longleftrightarrow> payload = [] \<or> (\<not> isWhiteSpace (hd payload) \<and> \<not> isWhiteSpace (last payload)))"
  using fenced_clean [OF assms, of payload] trim_fixed [of payload] by simp

theorem fenced_payload_trimmed_witness:
  "LF \<notin> set (ascii ''json'')
   \<and> cleanJsonText (fenced (ascii ''json'') (ascii ''{\"a\":1}'')) = ascii ''{\"a\":1}''"
proof -
  have h: "LF \<notin> set (ascii ''json'')" by (simp add: LF_def ascii_def)
  have t: "trim (ascii ''{\"a\":1}'') = ascii ''{\"a\":1}''" by code_simp
  from fenced_payload_trimmed [OF h, of "ascii ''{\"a\":1}''"] h t show ?thesis by simp
qed

text \<open>
  C3 as stated fails on a payload that begins with a space: the fenced text
  \<open>```json\<close>, line feed, \<open> {}\<close>, line feed, \<open>```\<close> is cleaned to \<open>{}\<close>, not to \<open> {}\<close>.
\<close>

theorem fenced_payload_counterexample:
  "cleanJsonText (fenced (ascii ''json'') (ascii '' {}'')) \<noteq> ascii '' {}''"
  by code_simp

text \<open>
  Claim C10. When the trimmed input begins with three backticks and holds no line
  feed, nothing is dropped at the front: the result is the trimmed input cut at the
  last occurrence of three backticks, trimmed. So \<open>```\<close> gives the empty string and
  the one-line \<open>```json{"a":1}```\<close> keeps its opening fence.
\<close>

theorem fence_without_line_break:
  "(startsWith (trim raw) backticks \<and> LF \<notin> set (trim raw) \<longrightarrow>
      (\<exists>k. lastIndexOf (trim raw) backticks = Some k
          \<and> startsWith (drop k (trim raw)) backticks
          \<and> (\<forall>j. k < j \<and> j \<le> length (trim raw) \<longrightarrow> \<not> startsWith (drop j (trim raw)) backticks)
          \<and> cleanJsonText raw = trim (take k (trim raw))))
   \<and> cleanJsonText (ascii ''```'') = []
   \<and> cleanJsonText (ascii ''```json{\"a\":1}```'') = ascii ''```json{\"a\":1}''"
proof -
  have g: "\<exists>k. lastIndexOf (trim raw) backticks = Some k
          \<and> startsWith (drop k (trim raw)) backticks
          \<and> (\<forall>j. k < j \<and> j \<le> length (trim raw) \<longrightarrow> \<not> startsWith (drop j (trim raw)) backticks)
          \<and> cleanJsonText raw = trim (take k (trim raw))"
    if sw: "startsWith (trim raw) backticks" and nl: "LF \<notin> set (trim raw)"
  proof -
    from lastIndexOf_startsWith [OF sw] obtain k
      where k: "lastIndexOf (trim raw) backticks = Some k" ..
    have io: "indexOf (trim raw) [LF] = None" using nl by (rule indexOf_char_None)
    have c: "cleanJsonText raw = trim (take k (trim raw))"
      by (simp add: cleanJsonText_def sw io k sliceTo_def)
    show ?thesis using k c lastIndexOf_Some [OF k] lastIndexOf_greatest [OF k] by blast
  qed
  have e1: "cleanJsonText (ascii ''```'') = []" by code_simp
  have e2: "cleanJsonText (ascii ''```json{\"a\":1}```'') = ascii ''```json{\"a\":1}''"
    by code_simp
  show ?thesis using g e1 e2 by blast
qed

theorem fence_without_line_break_witness:
  "startsWith (trim (ascii '' ```js x``` '')) backticks
   \<and> LF \<notin> set (trim (ascii '' ```js x``` ''))
   \<and> (\<exists>k. lastIndexOf (trim (ascii '' ```js x``` '')) backticks = Some k
          \<and> cleanJsonText (ascii '' ```js x``` '')
              = trim (take k (trim (ascii '' ```js x``` ''))))
   \<and> cleanJsonText (ascii '' ```js x``` '') = ascii ''```js x''"
proof -
  have a: "startsWith (trim (ascii '' ```js x``` '')) backticks" by code_simp
  have b: "LF \<notin> set (trim (ascii '' ```js x``` ''))" by code_simp
  have c: "cleanJsonText (ascii '' ```js x``` '') = ascii ''```js x''" by code_simp
  from fence_without_line_break [of "ascii '' ```js x``` ''"] a b c show ?thesis by blast
qed


section \<open>The structuring operation\<close>

text \<open>
  Claim C1, as the code has it. Without a client \<open>interpretTaskWithLio\<close> returns
  \<open>null\<close>; when the prompt cannot be built or the provider call rejects, it throws.
  When the provider has answered: without a text, with a text that is not JSON, or
  with one that decodes to \<open>null\<close> or a primitive, the result is \<open>null\<close>; with a text
  that decodes to an object or an array the result is that value, never \<open>null\<close>,
  unchanged when its \<open>originalTaskId\<close> is truthy and with \<open>originalTaskId\<close> set to
  \<open>task.id\<close> otherwise. No field is checked: the result is a structured task
  exactly when the decoded value is an object whose other fields are those of a
  structured task and whose resulting \<open>originalTaskId\<close> is a string.
\<close>

theorem interpretTaskWithLio_unvalidated:
  "(\<not> openai rt \<longrightarrow> fst (interpretTaskWithLio rt task) = Inr JNull)
   \<and> (openai rt \<and> userPrompt rt task = Inl e
        \<longrightarrow> fst (interpretTaskWithLio rt task) = Inl e)
   \<and> (openai rt \<and> userPrompt rt task = Inr args \<and> responses_create rt args = Inl e
        \<longrightarrow> fst (interpretTaskWithLio rt task) = Inl e)
   \<and> (openai rt \<and> userPrompt rt task = Inr args \<and> responses_create rt args = Inr completion
        \<longrightarrow>
        (case fst (extractTextFromResponse completion) of
           None \<Rightarrow> fst (interpretTaskWithLio rt task) = Inr JNull
         | Some t \<Rightarrow>
             (case JSON_parse (cleanJsonText t) of
                None \<Rightarrow> fst (interpretTaskWithLio rt task) = Inr JNull
              | Some parsed \<Rightarrow>
                  if isObject parsed
                  then (\<exists>oid tid v.
                          getProp parsed (ascii ''originalTaskId'') = Inr oid
                          \<and> getProp task (ascii ''id'') = Inr tid
                          \<and> (if truthy oid then v = parsed
                              else setProp parsed (ascii ''originalTaskId'') tid = Inr v)
                          \<and> fst (interpretTaskWithLio rt task) = Inr v
                          \<and> v \<noteq> JNull
                          \<and> (isStructuredHueterTask v \<longleftrightarrow>
                               (\<exists>ps. parsed = JObj ps \<and> otherFieldsOk ps
                                     \<and> isString (if truthy oid then oid else tid))))
                  else fst (interpretTaskWithLio rt task) = Inr JNull)))"
proof -
  have c1: "\<not> openai rt \<longrightarrow> fst (interpretTaskWithLio rt task) = Inr JNull"
    by (simp add: interpretTaskWithLio_def)
  have c2: "openai rt \<and> userPrompt rt task = Inl e
        \<longrightarrow> fst (interpretTaskWithLio rt task) = Inl e"
    by (simp add: interpretTaskWithLio_def)
  have c3: "openai rt \<and> userPrompt rt task = Inr args \<and> responses_create rt args = Inl e
        \<longrightarrow> fst (interpretTaskWithLio rt task) = Inl e"
    by (simp add: interpretTaskWithLio_def)
  have c4: "(case fst (extractTextFromResponse completion) of
           None \<Rightarrow> fst (interpretTaskWithLio rt task) = Inr JNull
         | Some t \<Rightarrow>
             (case JSON_parse (cleanJsonText t) of
                None \<Rightarrow> fst (interpretTaskWithLio rt task) = Inr JNull
              | Some parsed \<Rightarrow>
                  if isObject parsed
                  then (\<exists>oid tid v.
                          getProp parsed (ascii ''originalTaskId'') = Inr oid
                          \<and> getProp task (ascii ''id'') = Inr tid
                          \<and> (if truthy oid then v = parsed
                              else setProp parsed (ascii ''originalTaskId'') tid = Inr v)
                          \<and> fst (interpretTaskWithLio rt task) = Inr v
                          \<and> v \<noteq> JNull
                          \<and> (isStructuredHueterTask v \<longleftrightarrow>
                               (\<exists>ps. parsed = JObj ps \<and> otherFieldsOk ps
                                     \<and> isString (if truthy oid then oid else tid))))
                  else fst (interpretTaskWithLio rt task) = Inr JNull))"
    if cfg: "openai rt" and prompt: "userPrompt rt task = Inr args"
      and call: "responses_create rt args = Inr completion"
  proof -
    note res = interpret_after_call [OF cfg prompt call]
    from userPrompt_id [OF prompt] obtain tid
      where tid: "getProp task (ascii ''id'') = Inr tid" ..
    show ?thesis
    proof (cases "fst (extractTextFromResponse completion)")
      case None
      with res show ?thesis by simp
    next
      case (Some t)
      note t = Some
      show ?thesis
      proof (cases "JSON_parse (cleanJsonText t)")
        case None
        with res t show ?thesis by (simp add: decode_try_not_json)
      next
        case (Some parsed)
        show ?thesis
        proof (cases "isObject parsed")
          case False
          from decode_try_primitive [OF Some False, of task] obtain e'
            where "decode_try task (cleanJsonText t) = Inl e'" ..
          with res t Some False show ?thesis by simp
        next
          case True
          from decode_try_object [OF Some True tid] obtain oid v where
            o: "getProp parsed (ascii ''originalTaskId'') = Inr oid"
            and r: "if truthy oid then v = parsed
                    else setProp parsed (ascii ''originalTaskId'') tid = Inr v"
            and d: "decode_try task (cleanJsonText t) = Inr v"
            and ov: "isObject v"
            by blast
          from res t d have rv: "fst (interpretTaskWithLio rt task) = Inr v" by simp
          from ov have nn: "v \<noteq> JNull" by (auto simp: isObject_def)
          have iff: "isStructuredHueterTask v \<longleftrightarrow>
                (\<exists>ps. parsed = JObj ps \<and> otherFieldsOk ps
                      \<and> isString (if truthy oid then oid else tid))"
          proof (cases parsed)
            case (JObj ps)
            with o have oid: "oid = field ps ''originalTaskId''" by (simp add: field_def)
            show ?thesis
              using r JObj oid
              by (auto simp: isStructuredHueterTask_def field_update otherFieldsOk_update
                  split: if_splits)
          next
            case (JArr es ps)
            then show ?thesis
              using r by (auto simp: isStructuredHueterTask_def split: if_splits)
          qed (use True in \<open>auto simp: isObject_def\<close>)
          show ?thesis using t Some True o tid r rv nn iff by auto
        qed
      qed
    qed
  qed
  show ?thesis using c1 c2 c3 c4 by blast
qed

theorem interpretTaskWithLio_unvalidated_witness:
  "openai (example_runtime (ascii ''[]''))
   \<and> userPrompt (example_runtime (ascii ''[]'')) (JObj example_task_fields)
       = Inr [ascii ''bitte'', ascii ''t1'', ascii ''marcel'', ascii ''1970-01-01T00:00:00.000Z'']
   \<and> fst (extractTextFromResponse (example_envelope (ascii ''[]''))) = Some (ascii ''[]'')
   \<and> JSON_parse (cleanJsonText (ascii ''[]'')) = Some (JArr [] [])
   \<and> isObject (JArr [] [])
   \<and> fst (interpretTaskWithLio (example_runtime (ascii ''[]'')) (JObj example_task_fields))
       = Inr (JArr [] [(ascii ''originalTaskId'', JStr (ascii ''t1''))])"
proof -
  let ?R = "example_runtime (ascii ''[]'')"
  let ?T = "JObj example_task_fields"
  let ?A = "[ascii ''bitte'', ascii ''t1'', ascii ''marcel'', ascii ''1970-01-01T00:00:00.000Z'']"
  have call: "responses_create ?R ?A = Inr (example_envelope (ascii ''[]''))"
    by (simp add: example_runtime_def)
  have ext: "fst (extractTextFromResponse (example_envelope (ascii ''[]''))) = Some (ascii ''[]'')"
    by (simp add: example_extract)
  have parse: "JSON_parse (cleanJsonText (ascii ''[]'')) = Some (JArr [] [])" by code_simp
  have obj: "isObject (JArr [] [])" by (simp add: isObject_def)
  have oid: "getProp (JArr [] []) (ascii ''originalTaskId'') = Inr JUndefined" by simp
  have tid: "getProp ?T (ascii ''id'') = Inr (JStr (ascii ''t1''))" by code_simp
  from interpretTaskWithLio_unvalidated [of ?R ?T _ ?A "example_envelope (ascii ''[]'')"]
    example_openai [of "ascii ''[]''"] example_userPrompt [of "ascii ''[]''"] call
  have "case fst (extractTextFromResponse (example_envelope (ascii ''[]''))) of
           None \<Rightarrow> fst (interpretTaskWithLio ?R ?T) = Inr JNull
         | Some t \<Rightarrow>
             (case JSON_parse (cleanJsonText t) of
                None \<Rightarrow> fst (interpretTaskWithLio ?R ?T) = Inr JNull
              | Some parsed \<Rightarrow>
                  if isObject parsed
                  then (\<exists>oid tid v.
                          getProp parsed (ascii ''originalTaskId'') = Inr oid
                          \<and> getProp ?T (ascii ''id'') = Inr tid
                          \<and> (if truthy oid then v = parsed
                              else setProp parsed (ascii ''originalTaskId'') tid = Inr v)
                          \<and> fst (interpretTaskWithLio ?R ?T) = Inr v
                          \<and> v \<noteq> JNull
                          \<and> (isStructuredHueterTask v \<longleftrightarrow>
                               (\<exists>ps. parsed = JObj ps \<and> otherFieldsOk ps
                                     \<and> isString (if truthy oid then oid else tid))))
                  else fst (interpretTaskWithLio ?R ?T) = Inr JNull)"
    by blast
  then have "fst (interpretTaskWithLio ?R ?T)
       = Inr (JArr [] [(ascii ''originalTaskId'', JStr (ascii ''t1''))])"
    using ext parse obj oid tid by auto
  then show ?thesis
    using example_openai [of "ascii ''[]''"] example_userPrompt [of "ascii ''[]''"]
      ext parse obj
    by blast
qed

text \<open>
  C1 as stated fails on the provider text \<open>{}\<close>: it parses as JSON, every field of a
  structured task is missing, and the operation returns the object with only
  \<open>originalTaskId\<close> in it. It also fails on an incoming task whose \<open>createdAt\<close> is
  1e16: the operation throws, it returns neither a structured task nor \<open>null\<close>.
\<close>

theorem structure_partial_object_counterexample:
  "JSON_parse (ascii ''{}'') = Some (JObj [])
   \<and> fst (interpretTaskWithLio (example_runtime (ascii ''{}'')) (JObj example_task_fields))
       = Inr (JObj [(ascii ''originalTaskId'', JStr (ascii ''t1''))])
   \<and> \<not> isStructuredHueterTask (JObj [(ascii ''originalTaskId'', JStr (ascii ''t1''))])
   \<and> isIncomingTask (JObj late_task_fields)
   \<and> fst (interpretTaskWithLio (example_runtime (ascii ''{}'')) (JObj late_task_fields))
       = Inl RangeError"
proof -
  have a: "JSON_parse (ascii ''{}'') = Some (JObj [])" by code_simp
  have c: "\<not> isStructuredHueterTask (JObj [(ascii ''originalTaskId'', JStr (ascii ''t1''))])"
    by code_simp
  show ?thesis using a example_empty_object c late_isIncomingTask by (simp add: late_throws)
qed

text \<open>
  Claim C2, as the code has it. Take an incoming task, a configured client, and a
  provider text that is a JSON object with every field of a structured task,
  \<open>originalTaskId\<close> being a string or left out. When the task's \<open>createdAt\<close> is a
  valid time value and the provider answers the prompt with that text, the
  operation returns a structured task, and its \<open>originalTaskId\<close> is the task's \<open>id\<close>
  when the model left the field out or empty, and the model's value otherwise.
  When \<open>createdAt\<close> is not a valid time value the operation throws a \<open>RangeError\<close>
  while it builds the prompt, before any call.
\<close>

theorem structure_originalTaskId:
  assumes inc: "isIncomingTask (JObj tps)"
    and flds: "field tps ''rawText'' = JStr r" "field tps ''id'' = JStr i"
      "field tps ''author'' = JStr a" "field tps ''createdAt'' = JNum n"
    and cfg: "openai rt"
    and ext: "fst (extractTextFromResponse completion) = Some t"
    and parse: "JSON_parse t = Some (JObj ps)"
    and others: "otherFieldsOk ps"
    and oid: "field ps ''originalTaskId'' = JUndefined \<or> isString (field ps ''originalTaskId'')"
  shows "(validTime n \<and> responses_create rt [r, i, a, ISO_text rt n] = Inr completion \<longrightarrow>
          (\<exists>ps'. fst (interpretTaskWithLio rt (JObj tps)) = Inr (JObj ps')
             \<and> isStructuredHueterTask (JObj ps')
             \<and> field ps' ''originalTaskId'' =
               (if field ps ''originalTaskId'' = JUndefined \<or> field ps ''originalTaskId'' = JStr []
                then JStr i else field ps ''originalTaskId'')))
     \<and> (\<not> validTime n \<longrightarrow> interpretTaskWithLio rt (JObj tps) = (Inl RangeError, []))"
proof -
  note up = userPrompt_incoming [OF flds, of rt]
  have bad: "interpretTaskWithLio rt (JObj tps) = (Inl RangeError, [])" if "\<not> validTime n"
    using that cfg up by (simp add: interpretTaskWithLio_def)
  have good: "\<exists>ps'. fst (interpretTaskWithLio rt (JObj tps)) = Inr (JObj ps')
             \<and> isStructuredHueterTask (JObj ps')
             \<and> field ps' ''originalTaskId'' =
               (if field ps ''originalTaskId'' = JUndefined \<or> field ps ''originalTaskId'' = JStr []
                then JStr i else field ps ''originalTaskId'')"
    if v: "validTime n" and call: "responses_create rt [r, i, a, ISO_text rt n] = Inr completion"
  proof -
    let ?k = "ascii ''originalTaskId''"
    let ?ps' = "if truthy (field ps ''originalTaskId'') then ps
                else AList.update ?k (JStr i) ps"
    from up v have prompt: "userPrompt rt (JObj tps) = Inr [r, i, a, ISO_text rt n]" by simp
    have cl: "JSON_parse (cleanJsonText t) = Some (JObj ps)"
      using parse by (rule JSON_parse_clean)
    have dec: "decode_try (JObj tps) (cleanJsonText t) = Inr (JObj ?ps')"
      by (simp add: decode_try_def cl bindE_def getProp_obj flds del: getProp.simps)
    have res: "fst (interpretTaskWithLio rt (JObj tps)) = Inr (JObj ?ps')"
      using interpret_after_call [OF cfg prompt call] ext dec by simp
    have tr: "truthy (field ps ''originalTaskId'') \<longleftrightarrow>
              \<not> (field ps ''originalTaskId'' = JUndefined \<or> field ps ''originalTaskId'' = JStr [])"
      using oid by (cases "field ps ''originalTaskId''") (auto simp: isString_def)
    have shape: "isStructuredHueterTask (JObj ?ps')"
      using oid others tr
      by (auto simp: isStructuredHueterTask_def field_update otherFieldsOk_update isString_def)
    have fld: "field ?ps' ''originalTaskId'' =
               (if field ps ''originalTaskId'' = JUndefined \<or> field ps ''originalTaskId'' = JStr []
                then JStr i else field ps ''originalTaskId'')"
      using tr by (auto simp: field_update)
    show ?thesis using res shape fld by blast
  qed
  show ?thesis using good bad by blast
qed

theorem structure_originalTaskId_witness:
  "isIncomingTask (JObj example_task_fields)
   \<and> openai (example_runtime example_text)
   \<and> validTime (Finite 0)
   \<and> JSON_parse example_text = Some (JObj example_fields)
   \<and> otherFieldsOk example_fields
   \<and> field example_fields ''originalTaskId'' = JUndefined
   \<and> (\<exists>ps'. fst (interpretTaskWithLio (example_runtime example_text) (JObj example_task_fields))
               = Inr (JObj ps')
           \<and> isStructuredHueterTask (JObj ps')
           \<and> field ps' ''originalTaskId'' = JStr (ascii ''t1''))
   \<and> isIncomingTask (JObj late_task_fields)
   \<and> \<not> validTime (Finite 10000000000000000)
   \<and> interpretTaskWithLio (example_runtime example_text) (JObj late_task_fields)
       = (Inl RangeError, [])"
proof -
  let ?R = "example_runtime example_text"
  have f: "field example_task_fields ''rawText'' = JStr (ascii ''bitte'')"
    "field example_task_fields ''id'' = JStr (ascii ''t1'')"
    "field example_task_fields ''author'' = JStr (ascii ''marcel'')"
    "field example_task_fields ''createdAt'' = JNum (Finite 0)"
    by code_simp+
  have g: "field late_task_fields ''rawText'' = JStr (ascii ''bitte'')"
    "field late_task_fields ''id'' = JStr (ascii ''t1'')"
    "field late_task_fields ''author'' = JStr (ascii ''marcel'')"
    "field late_task_fields ''createdAt'' = JNum (Finite 10000000000000000)"
    by code_simp+
  have v: "validTime (Finite 0)" by (simp add: validTime_def)
  have nv: "\<not> validTime (Finite 10000000000000000)" by (simp add: validTime_def)
  have c: "responses_create ?R
             [ascii ''bitte'', ascii ''t1'', ascii ''marcel'', ISO_text ?R (Finite 0)]
           = Inr (example_envelope example_text)"
    by (simp add: example_runtime_def)
  have e: "fst (extractTextFromResponse (example_envelope example_text)) = Some example_text"
    by (simp add: example_extract)
  have o: "field example_fields ''originalTaskId'' = JUndefined
           \<or> isString (field example_fields ''originalTaskId'')"
    using example_no_id by simp
  from structure_originalTaskId
    [OF example_isIncomingTask f example_openai e example_parse example_otherFieldsOk o]
    v c
  have w1: "\<exists>ps'. fst (interpretTaskWithLio ?R (JObj example_task_fields)) = Inr (JObj ps')
           \<and> isStructuredHueterTask (JObj ps')
           \<and> field ps' ''originalTaskId'' = JStr (ascii ''t1'')"
    by (simp add: example_no_id)
  from structure_originalTaskId
    [OF late_isIncomingTask g example_openai e example_parse example_otherFieldsOk o]
    nv
  have w2: "interpretTaskWithLio ?R (JObj late_task_fields) = (Inl RangeError, [])"
    by blast
  show ?thesis
    using example_isIncomingTask example_openai v example_parse example_otherFieldsOk
      example_no_id w1 late_isIncomingTask nv w2
    by blast
qed

text \<open>
  C2 as stated fails on an incoming task whose \<open>createdAt\<close> is 1e16, with a provider
  that would answer every prompt with a well-formed structured task:
  \<open>new Date(1e16).toISOString()\<close> throws, and nothing is returned.
\<close>

theorem structure_invalid_date_counterexample:
  "isIncomingTask (JObj late_task_fields)
   \<and> field late_task_fields ''rawText'' = JStr (ascii ''bitte'')
   \<and> openai (example_runtime example_text)
   \<and> responses_create (example_runtime example_text) [] = Inr (example_envelope example_text)
   \<and> fst (extractTextFromResponse (example_envelope example_text)) = Some example_text
   \<and> JSON_parse example_text = Some (JObj example_fields)
   \<and> otherFieldsOk example_fields
   \<and> fst (interpretTaskWithLio (example_runtime example_text) (JObj late_task_fields))
       = Inl RangeError"
proof -
  have r: "field late_task_fields ''rawText'' = JStr (ascii ''bitte'')" by code_simp
  have c: "responses_create (example_runtime example_text) []
           = Inr (example_envelope example_text)"
    by (simp add: example_runtime_def)
  show ?thesis
    using late_isIncomingTask r example_openai c example_parse example_otherFieldsOk
    by (simp add: example_extract late_throws)
qed

text \<open>
  Claim C6. Without the credential (the variable unset or empty) the client is not
  initialised, and for every task the operation returns \<open>null\<close> with a warning as its
  only effect: no remote call, whatever the remote call would have answered.
\<close>

theorem no_credential_no_call:
  assumes "OPENAI_API_KEY rt = None \<or> OPENAI_API_KEY rt = Some []"
  shows "interpretTaskWithLio (rt\<lparr>responses_create := remote\<rparr>) task
         = (Inr JNull, [ConsoleWarn])"
  using assms by (auto simp: interpretTaskWithLio_def openai_def)

theorem no_credential_no_call_witness:
  "OPENAI_API_KEY ((example_runtime example_text)\<lparr>OPENAI_API_KEY := None\<rparr>) = None
   \<and> interpretTaskWithLio
        ((example_runtime example_text)
           \<lparr>OPENAI_API_KEY := None, responses_create := (\<lambda>a. Inr (example_envelope example_text))\<rparr>)
        (JObj example_task_fields)
      = (Inr JNull, [ConsoleWarn])"
  using no_credential_no_call
    [of "(example_runtime example_text)\<lparr>OPENAI_API_KEY := None\<rparr>"
        "\<lambda>a. Inr (example_envelope example_text)" "JObj example_task_fields"]
  by simp

text \<open>
  Claim C9. When the first content item of the first output carries the empty
  string as its text, the extractor returns the empty string, and the operation
  returns \<open>null\<close> with the same effects as for an envelope the extractor does not
  recognise.
\<close>

theorem empty_text_is_none:
  assumes shape: "completion = JObj cps"
      "map_of cps (ascii ''output'') = Some (JArr (JObj ops # outs) oex)"
      "map_of ops (ascii ''content'') = Some (JArr (JObj tps # conts) cex)"
      "map_of tps (ascii ''text'') = Some (JStr [])"
    and cfg: "openai rt" and prompt: "userPrompt rt task = Inr args"
    and call: "responses_create rt args = Inr completion"
    and other: "extractTextFromResponse unrecognized = (None, [])"
  shows "extractTextFromResponse completion = (Some [], [])
    \<and> interpretTaskWithLio rt task = (Inr JNull, [OpenAICall args, ConsoleError])
    \<and> interpretTaskWithLio (rt\<lparr>responses_create := (\<lambda>a. Inr unrecognized)\<rparr>) task
        = interpretTaskWithLio rt task"
proof -
  have e: "extractTextFromResponse completion = (Some [], [])"
    using shape
    by (simp add: extractTextFromResponse_def extractTextFromResponse_try_def bindE_def)
  have i: "interpretTaskWithLio rt task = (Inr JNull, [OpenAICall args, ConsoleError])"
    using cfg prompt call e by (simp add: interpretTaskWithLio_def)
  have p: "userPrompt (rt\<lparr>responses_create := (\<lambda>a. Inr unrecognized)\<rparr>) task = Inr args"
    using prompt by (simp add: userPrompt_responses_create)
  have u: "interpretTaskWithLio (rt\<lparr>responses_create := (\<lambda>a. Inr unrecognized)\<rparr>) task
        = (Inr JNull, [OpenAICall args, ConsoleError])"
    using cfg p other by (simp add: interpretTaskWithLio_def openai_def)
  show ?thesis using e i u by simp
qed

theorem empty_text_is_none_witness:
  "extractTextFromResponse (JObj []) = (None, [])
   \<and> extractTextFromResponse (example_envelope []) = (Some [], [])
   \<and> fst (interpretTaskWithLio (example_runtime []) (JObj example_task_fields)) = Inr JNull
   \<and> interpretTaskWithLio
        ((example_runtime [])\<lparr>responses_create := (\<lambda>a. Inr (JObj []))\<rparr>)
        (JObj example_task_fields)
      = interpretTaskWithLio (example_runtime []) (JObj example_task_fields)"
proof -
  have s1: "example_envelope [] =
     JObj [(ascii ''output'',
            JArr [JObj [(ascii ''content'',
                         JArr [JObj [(ascii ''type'', JStr (ascii ''output_text'')),
                                     (ascii ''text'', JStr [])]] [])]] [])]"
    by (simp add: example_envelope_def)
  have s2: "map_of [(ascii ''output'',
            JArr [JObj [(ascii ''content'',
                         JArr [JObj [(ascii ''type'', JStr (ascii ''output_text'')),
                                     (ascii ''text'', JStr [])]] [])]] [])] (ascii ''output'')
     = Some (JArr (JObj [(ascii ''content'',
                         JArr [JObj [(ascii ''type'', JStr (ascii ''output_text'')),
                                     (ascii ''text'', JStr [])]] [])] # []) [])"
    by simp
  have s3: "map_of [(ascii ''content'',
                         JArr [JObj [(ascii ''type'', JStr (ascii ''output_text'')),
                                     (ascii ''text'', JStr [])]] [])] (ascii ''content'')
     = Some (JArr (JObj [(ascii ''type'', JStr (ascii ''output_text'')),
                                     (ascii ''text'', JStr [])] # []) [])"
    by simp
  have s4: "map_of [(ascii ''type'', JStr (ascii ''output_text'')), (ascii ''text'', JStr [])]
              (ascii ''text'') = Some (JStr [])"
    by (simp add: ascii_def)
  have c: "responses_create (example_runtime [])
             [ascii ''bitte'', ascii ''t1'', ascii ''marcel'', ascii ''1970-01-01T00:00:00.000Z'']
           = Inr (example_envelope [])"
    by (simp add: example_runtime_def)
  have u: "extractTextFromResponse (JObj []) = (None, [])"
    by (simp add: extractTextFromResponse_def extractTextFromResponse_try_def bindE_def)
  from empty_text_is_none [OF s1 s2 s3 s4 example_openai example_userPrompt c u] u
  show ?thesis by simp
qed

section \<open>Forwarding and the ingestion endpoint\<close>


text \<open>
  Claim C5, as the code has it. The endpoint answers 400 exactly when the \<open>task\<close> of
  the body is falsy: left out, or \<open>null\<close>, \<open>false\<close>, \<open>0\<close> or the empty string. In every
  other case it answers 200 with \<open>{ok: true, received: true, structuredTask: v}\<close>,
  where \<open>v\<close> is what the structuring operation returned, and \<open>null\<close> when that
  operation threw.
\<close>

theorem ingestion_response:
  "(statusOf (fst (post_tasks_from_mfc rt reqBody)) = 400 \<longleftrightarrow> \<not> truthy (requestTask reqBody))
   \<and> (truthy (requestTask reqBody) \<longrightarrow>
        fst (post_tasks_from_mfc rt reqBody) =
          Response 200 (ack (case fst (interpretTaskWithLio rt (requestTask reqBody)) of
                               Inl err \<Rightarrow> JNull | Inr s \<Rightarrow> s)))
   \<and> requestTask (JObj ps) = field ps ''task''"
proof -
  have main: "(statusOf (fst (post_tasks_from_mfc rt reqBody)) = 400
                \<longleftrightarrow> \<not> truthy (requestTask reqBody))
   \<and> (truthy (requestTask reqBody) \<longrightarrow>
        fst (post_tasks_from_mfc rt reqBody) =
          Response 200 (ack (case fst (interpretTaskWithLio rt (requestTask reqBody)) of
                               Inl err \<Rightarrow> JNull | Inr s \<Rightarrow> s)))"
  proof (cases "truthy (requestTask reqBody)")
    case False
    then show ?thesis by (simp add: post_tasks_from_mfc_def)
  next
    case True
    obtain r effs where r: "interpretTaskWithLio rt (requestTask reqBody) = (r, effs)"
      by (cases "interpretTaskWithLio rt (requestTask reqBody)")
    show ?thesis
    proof (cases r)
      case (Inl e)
      then show ?thesis using True r by (simp add: post_tasks_from_mfc_def)
    next
      case (Inr s)
      with r interpret_truthy_or_null [of rt "requestTask reqBody" s]
      have "s = JNull \<or> truthy s" by simp
      then show ?thesis using True r Inr
        by (auto simp: post_tasks_from_mfc_def Let_def split: prod.splits)
    qed
  qed
  then show ?thesis by (simp add: requestTask_obj)
qed

theorem ingestion_response_witness:
  "truthy (requestTask (JObj [(ascii ''task'', JObj example_task_fields)]))
   \<and> fst (post_tasks_from_mfc (example_runtime (ascii ''{}''))
            (JObj [(ascii ''task'', JObj example_task_fields)]))
      = Response 200 (ack (JObj [(ascii ''originalTaskId'', JStr (ascii ''t1''))]))
   \<and> \<not> truthy (requestTask (JObj []))
   \<and> statusOf (fst (post_tasks_from_mfc (example_runtime (ascii ''{}'')) (JObj []))) = 400"
proof -
  let ?B = "JObj [(ascii ''task'', JObj example_task_fields)]"
  let ?R = "example_runtime (ascii ''{}'')"
  have t: "requestTask ?B = JObj example_task_fields"
    by (simp add: requestTask_def)
  then have tt: "truthy (requestTask ?B)" by simp
  have f: "requestTask (JObj []) = JUndefined" by (simp add: requestTask_def)
  then have ff: "\<not> truthy (requestTask (JObj []))" by simp
  from ingestion_response [of ?R ?B "[]"] tt
  have "fst (post_tasks_from_mfc ?R ?B) =
          Response 200 (ack (case fst (interpretTaskWithLio ?R (requestTask ?B)) of
                               Inl err \<Rightarrow> JNull | Inr s \<Rightarrow> s))"
    by blast
  then have a: "fst (post_tasks_from_mfc ?R ?B)
      = Response 200 (ack (JObj [(ascii ''originalTaskId'', JStr (ascii ''t1''))]))"
    by (simp add: t example_empty_object)
  from ingestion_response [of ?R "JObj []" "[]"] ff
  have b: "statusOf (fst (post_tasks_from_mfc ?R (JObj []))) = 400" by blast
  show ?thesis using tt a ff b by blast
qed

text \<open>
  C5 as stated fails on the body \<open>{"task": ""}\<close>: the field is there, and the answer
  is 400.
\<close>

theorem ingestion_400_counterexample:
  "map_of [(ascii ''task'', JStr [])] (ascii ''task'') = Some (JStr [])
   \<and> statusOf (fst (post_tasks_from_mfc (example_runtime (ascii ''{}''))
                      (JObj [(ascii ''task'', JStr [])]))) = 400"
  by (simp add: post_tasks_from_mfc_def requestTask_def)

section \<open>Workflows and runs\<close>

text \<open>
  Claim C8. When the request to the MFC fails (the request errors, the body is not
  JSON) or the answer has no array under \<open>workflows\<close>, \<open>GET /workflows\<close> answers 200
  with the built-in list, which holds the ids \<open>dev-start\<close> and \<open>hueter-dev-session\<close>.
\<close>

theorem workflows_fallback:
  "(httpRequestToMfc r = Inl err
      \<longrightarrow> get_workflows nf r = Reply 200 (WorkflowList fallbackWorkflows))
   \<and> (httpRequestToMfc r = Inr v
        \<and> (\<forall>es ps. getProp v (ascii ''workflows'') \<noteq> Inr (JArr es ps))
      \<longrightarrow> get_workflows nf r = Reply 200 (WorkflowList fallbackWorkflows))
   \<and> (r = RequestError \<or> r = InvalidUrl
        \<or> (\<exists>raw. r = ResponseBody raw \<and> raw \<noteq> [] \<and> JSON_parse raw = None)
      \<longrightarrow> (\<exists>e. httpRequestToMfc r = Inl e))
   \<and> ascii ''dev-start'' \<in> wf_id ` set fallbackWorkflows
   \<and> ascii ''hueter-dev-session'' \<in> wf_id ` set fallbackWorkflows"
proof -
  have a: "httpRequestToMfc r = Inl err
      \<longrightarrow> get_workflows nf r = Reply 200 (WorkflowList fallbackWorkflows)"
    by (simp add: get_workflows_def get_workflows_try_def bindE_def)
  have b: "httpRequestToMfc r = Inr v
        \<and> (\<forall>es ps. getProp v (ascii ''workflows'') \<noteq> Inr (JArr es ps))
      \<longrightarrow> get_workflows nf r = Reply 200 (WorkflowList fallbackWorkflows)"
    by (auto simp: get_workflows_def get_workflows_try_def bindE_def
        split: sum.splits jsval.splits)
  have c: "r = RequestError \<or> r = InvalidUrl
        \<or> (\<exists>raw. r = ResponseBody raw \<and> raw \<noteq> [] \<and> JSON_parse raw = None)
      \<longrightarrow> (\<exists>e. httpRequestToMfc r = Inl e)"
    by (auto simp: httpRequestToMfc_def)
  have d: "ascii ''dev-start'' \<in> wf_id ` set fallbackWorkflows"
    "ascii ''hueter-dev-session'' \<in> wf_id ` set fallbackWorkflows"
    by (simp_all add: fallbackWorkflows_def)
  show ?thesis using a b c d by blast
qed

theorem workflows_fallback_witness:
  "httpRequestToMfc RequestError = Inl HostError
   \<and> get_workflows (\<lambda>n. []) RequestError = Reply 200 (WorkflowList fallbackWorkflows)
   \<and> JSON_parse (ascii ''<html>'') = None
   \<and> get_workflows (\<lambda>n. []) (ResponseBody (ascii ''<html>''))
      = Reply 200 (WorkflowList fallbackWorkflows)
   \<and> httpRequestToMfc (ResponseBody (ascii ''{}'')) = Inr (JObj [])
   \<and> get_workflows (\<lambda>n. []) (ResponseBody (ascii ''{}''))
      = Reply 200 (WorkflowList fallbackWorkflows)"
proof -
  have h1: "httpRequestToMfc RequestError = Inl HostError" by (simp add: httpRequestToMfc_def)
  have p2: "JSON_parse (ascii ''<html>'') = None" by code_simp
  have n2: "ascii ''<html>'' \<noteq> []" by (simp add: ascii_def)
  have h2: "httpRequestToMfc (ResponseBody (ascii ''<html>'')) = Inl PlainError"
    using p2 n2 by (simp add: httpRequestToMfc_def)
  have p3: "JSON_parse (ascii ''{}'') = Some (JObj [])" by code_simp
  have n3: "ascii ''{}'' \<noteq> []" by (simp add: ascii_def)
  have h3: "httpRequestToMfc (ResponseBody (ascii ''{}'')) = Inr (JObj [])"
    using p3 n3 by (simp add: httpRequestToMfc_def)
  have g3: "\<forall>es ps. getProp (JObj []) (ascii ''workflows'') \<noteq> Inr (JArr es ps)" by simp
  from workflows_fallback [of RequestError HostError "\<lambda>n. []"]
    workflows_fallback [of "ResponseBody (ascii ''<html>'')" PlainError "\<lambda>n. []"]
    workflows_fallback [of "ResponseBody (ascii ''{}'')" _ "\<lambda>n. []" "JObj []"]
    h1 h2 h3 g3 p2
  show ?thesis by simp
qed

text \<open>
  What holds of claim C4: the run that \<open>start\<close> returns, that it is stored under its
  \<open>runId\<close> and read back by \<open>get\<close>, and the 404 for an id that is neither stored nor a
  name of \<open>Object.prototype\<close>.
\<close>

lemma start_workflow_run:
  assumes "start_workflow now wid runs = (Reply st body, runs')"
  shows "\<exists>run. st = 202 \<and> body = RunBody run
          \<and> map step_id (steps run) = [wid @ ascii ''-step-1'', wid @ ascii ''-step-2'']
          \<and> map state (steps run) = [Running, Pending]
          \<and> run_status run = Running \<and> finishedAt run = None \<and> workflowId run = wid
          \<and> map_of runs' (runId run) = Some run
          \<and> get_run runs' (runId run) = Reply 200 (RunBody run)"
  using assms
  by (auto simp: start_workflow_def Let_def get_run_def registry_get_def update_conv')

lemma start_runId_own:
  "ascii ''run-'' @ replaceColonDot now @ ascii ''-'' @ wid \<notin> set Object_prototype_names"
  by (simp add: Object_prototype_names_def ascii_def)

lemma get_run_absent:
  assumes "map_of runs rid = None" and "rid \<notin> set Object_prototype_names"
  shows "get_run runs rid = Reply 404 (RunNotFound (ascii ''Run not found'') rid)"
  using assms by (simp add: get_run_def registry_get_def)

lemma get_run_does_not_exist:
  "get_run [] (ascii ''does-not-exist'')
   = Reply 404 (RunNotFound (ascii ''Run not found'') (ascii ''does-not-exist''))"
  by (simp add: get_run_def registry_get_def Object_prototype_names_def ascii_def)

text \<open>
  Claim C4 at the id \<open>constructor\<close>, with nothing stored. \<open>runs["constructor"]\<close> is
  the function inherited from \<open>Object.prototype\<close>, which is truthy, so the handler
  skips the 404 branch and answers 200.
\<close>

theorem get_run_inherited_name:
  "get_run [] (ascii ''constructor'') = Reply 200 (InheritedValue (ascii ''constructor''))"
  by (simp add: get_run_def registry_get_def Object_prototype_names_def ascii_def)

end
